theory Spec2Isabelle
  imports Complex_Main "HOL-Library.Word"
begin

section \<open>Data model of generators.cpp\<close>

text \<open>
  The generator works on \<^verbatim>\<open>float\<close> coordinates and \<^verbatim>\<open>unsigned\<close> counts.
  Coordinates are modelled by the real numbers they stand for (rounding is not
  modelled: every statement below about coordinates is a statement about the
  formulas the code evaluates). Counts are 32-bit words (\<^verbatim>\<open>unsigned\<close> as it is
  on the usual platforms), so that the wrap-around of a loop counter is part of
  the model.

  A quotient by zero is \<open>inf\<close> or \<open>NaN\<close> in the code and 0 in HOL. The code
  divides by \<open>ndivs\<close>, \<open>slices\<close>, \<open>stacks\<close> and by the norm of an edge; every
  statement below about coordinates assumes them different from zero or is about a
  run that does not use the quotient.
\<close>

type_synonym unsigned = "32 word"

record Point =
  x :: real
  y :: real
  z :: real

record Triangle =
  P1 :: Point
  P2 :: Point
  P3 :: Point

record Rectangle =
  P1 :: Point
  P2 :: Point
  P3 :: Point
  P4 :: Point

record Box =
  top :: Rectangle
  bottom :: Rectangle

record Cone =
  rad :: real
  height :: real
  slices :: unsigned
  stacks :: unsigned

record Cylinder =
  rad :: real
  height :: real
  slices :: unsigned
  stacks :: unsigned

record Sphere =
  rad :: real
  slices :: unsigned
  stacks :: unsigned

text \<open>The constructor functions at the end of generators.cpp.\<close>

definition Point :: "real \<Rightarrow> real \<Rightarrow> real \<Rightarrow> Point" where
  "Point a b c = \<lparr>x = a, y = b, z = c\<rparr>"

definition Triangle :: "Point \<Rightarrow> Point \<Rightarrow> Point \<Rightarrow> Triangle" where
  "Triangle A B C = \<lparr>Triangle.P1 = A, Triangle.P2 = B, Triangle.P3 = C\<rparr>"

definition Rectangle :: "Point \<Rightarrow> Point \<Rightarrow> Point \<Rightarrow> Point \<Rightarrow> Rectangle" where
  "Rectangle A B C D =
     \<lparr>Rectangle.P1 = A, Rectangle.P2 = B, Rectangle.P3 = C, Rectangle.P4 = D\<rparr>"

section \<open>Vector math\<close>

text \<open>\<^verbatim>\<open>operator* (float s, struct Point A)\<close>: each coordinate of \<open>A\<close> times \<open>s\<close>.\<close>

definition scale_fP :: "real \<Rightarrow> Point \<Rightarrow> Point" where
  "scale_fP s A = Point (x A * s) (y A * s) (z A * s)"

text \<open>\<^verbatim>\<open>operator* (struct Point A, float s)\<close> calls the one above.\<close>

definition scale_Pf :: "Point \<Rightarrow> real \<Rightarrow> Point" where
  "scale_Pf A s = scale_fP s A"

text \<open>\<^verbatim>\<open>operator+ (struct Point A, struct Point B)\<close>.\<close>

definition add_P :: "Point \<Rightarrow> Point \<Rightarrow> Point" where
  "add_P A B = Point (x A + x B) (y A + y B) (z A + z B)"

definition norm_P :: "Point \<Rightarrow> real" where
  "norm_P v = sqrt (x v * x v + y v * y v + z v * z v)"

definition dist_P :: "Point \<Rightarrow> Point \<Rightarrow> real" where
  "dist_P A B = norm_P (add_P (scale_fP (- 1) A) B)"

definition normalize_P :: "Point \<Rightarrow> Point" where
  "normalize_P A = scale_fP (1 / norm_P A) A"

section \<open>The 4 by 4 matrix products of the Bezier evaluator\<close>

text \<open>
  A C array \<^verbatim>\<open>T a[4][4]\<close> is a list of four rows of four entries; \<^verbatim>\<open>a[i][j]\<close>
  is \<open>a ! i ! j\<close>. Every index below is smaller than 4.
\<close>

definition is4x4 :: "'a list list \<Rightarrow> bool" where
  "is4x4 a \<longleftrightarrow> length a = 4 \<and> (\<forall>r \<in> set a. length r = 4)"

definition mat_dot_product_MP :: "real list list \<Rightarrow> Point list list \<Rightarrow> nat \<Rightarrow> nat \<Rightarrow> Point" where
  "mat_dot_product_MP M P i j =
     fold (\<lambda>I ret. add_P ret (scale_fP (M ! i ! I) (P ! I ! j))) [0..<4] (Point 0 0 0)"

definition mat_dot_product_PM :: "Point list list \<Rightarrow> real list list \<Rightarrow> nat \<Rightarrow> nat \<Rightarrow> Point" where
  "mat_dot_product_PM P M i j =
     fold (\<lambda>I ret. add_P ret (scale_fP (M ! I ! j) (P ! i ! I))) [0..<4] (Point 0 0 0)"

text \<open>
  \<^verbatim>\<open>mult_MP\<close> and \<^verbatim>\<open>mult_PM\<close> assign every cell \<open>r[i][j]\<close>, \<open>i, j < 4\<close>, of the
  result array once; the result is that array.
\<close>

definition mult_MP :: "real list list \<Rightarrow> Point list list \<Rightarrow> Point list list" where
  "mult_MP M P = map (\<lambda>i. map (\<lambda>j. mat_dot_product_MP M P i j) [0..<4]) [0..<4]"

definition mult_PM :: "Point list list \<Rightarrow> real list list \<Rightarrow> Point list list" where
  "mult_PM P M = map (\<lambda>i. map (\<lambda>j. mat_dot_product_PM P M i j) [0..<4]) [0..<4]"

definition mult_MPM :: "real list list \<Rightarrow> Point list list \<Rightarrow> Point list list" where
  "mult_MPM M P = (let tmp = mult_MP M P in mult_PM tmp M)"

text \<open>The matrix \<^verbatim>\<open>M\<close> of \<^verbatim>\<open>gen_bezier_patch_write_intern\<close>.\<close>

definition bezier_M :: "real list list" where
  "bezier_M = [[- 1, 3, - 3, 1],
               [3, - 6, 3, 0],
               [- 3, 3, 0, 0],
               [1, 0, 0, 0]]"

text \<open>
  The specification's product, written from its words: entry \<open>(i, j)\<close> of
  \<open>M \<cdot> P \<cdot> M\<^sup>T\<close> is the sum over \<open>k\<close> and \<open>l\<close> of
  \<open>M\<^bsub>ik\<^esub> \<cdot> P\<^bsub>kl\<^esub> \<cdot> (M\<^sup>T)\<^bsub>lj\<^esub>\<close>, coordinate by coordinate.
\<close>

definition spec_MPMt_entry :: "real list list \<Rightarrow> Point list list \<Rightarrow> (Point \<Rightarrow> real) \<Rightarrow> nat \<Rightarrow> nat \<Rightarrow> real" where
  "spec_MPMt_entry M P c i j =
     (\<Sum>k<4. \<Sum>l<4. M ! i ! k * c (P ! k ! l) * transpose M ! l ! j)"

definition spec_MPMt :: "real list list \<Rightarrow> Point list list \<Rightarrow> Point list list" where
  "spec_MPMt M P =
     map (\<lambda>i. map (\<lambda>j. Point (spec_MPMt_entry M P x i j)
                            (spec_MPMt_entry M P y i j)
                            (spec_MPMt_entry M P z i j)) [0..<4]) [0..<4]"


section \<open>Loops over \<^verbatim>\<open>unsigned\<close> counters\<close>

text \<open>
  \<^verbatim>\<open>for (unsigned i = i0; i < n; i++) s = body(i, s);\<close>
  The counter stays below \<open>n\<close>, so \<open>i + 1\<close> never wraps and the loop ends.
\<close>

function for_lt :: "unsigned \<Rightarrow> unsigned \<Rightarrow> (unsigned \<Rightarrow> 's \<Rightarrow> 's) \<Rightarrow> 's \<Rightarrow> 's" where
  "for_lt i n body s = (if i < n then for_lt (i + 1) n body (body i s) else s)"
  by pat_completeness auto
termination
proof (relation "measure (\<lambda>(i, n, body, s). unat n - unat i)")
  show "wf (measure (\<lambda>(i, n, body, s). unat n - unat i))" by simp
next
  fix i n :: unsigned and body :: "unsigned \<Rightarrow> 's \<Rightarrow> 's" and s :: 's
  assume "i < n"
  then have l: "unat i < unat n" by (simp add: word_less_nat_alt)
  moreover have "unat n < 2 ^ LENGTH(32)" by (rule unsigned_less)
  ultimately have "unat i + unat (1::unsigned) < 2 ^ LENGTH(32)" by simp
  then have "unat (i + 1) = unat i + unat (1::unsigned)" by (simp only: unat_add_lem)
  with l show "((i + 1, n, body, body i s), (i, n, body, s))
      \<in> measure (\<lambda>(i, n, body, s). unat n - unat i)"
    by simp
qed

declare for_lt.simps [simp del]

text \<open>
  \<^verbatim>\<open>for (unsigned i = i0; i <= n; i++) s = body(i, s);\<close>
  When \<open>n\<close> is the largest \<^verbatim>\<open>unsigned\<close>, \<open>i <= n\<close> holds for every \<open>i\<close> and
  \<open>i++\<close> wraps to 0: the loop does not end. \<open>None\<close> is a run that never returns;
  the body is itself such a loop where the loops are nested.
\<close>

partial_function (option) for_le ::
  "unsigned \<Rightarrow> unsigned \<Rightarrow> (unsigned \<Rightarrow> 's \<Rightarrow> 's option) \<Rightarrow> 's \<Rightarrow> 's option" where
  "for_le i n body s =
     (if i \<le> n then Option.bind (body i s) (\<lambda>s'. for_le (i + 1) n body s') else Some s)"

text \<open>
  \<^verbatim>\<open>std::vector::operator[]\<close> does not check its index: reading at or past
  \<open>size()\<close> is undefined behaviour. A run that does so has the outcome
  \<open>Undefined\<close>; no function of generators.cpp reports an error to its caller
  (all return \<^verbatim>\<open>void\<close>, none exits or throws).
\<close>

datatype 'a outcome = Returns 'a | Undefined

definition vec_at :: "'a list \<Rightarrow> nat \<Rightarrow> 'a outcome" where
  "vec_at v i = (if i < length v then Returns (v ! i) else Undefined)"

definition obind :: "'a outcome \<Rightarrow> ('a \<Rightarrow> 'b outcome) \<Rightarrow> 'b outcome" where
  "obind r f = (case r of Returns a \<Rightarrow> f a | Undefined \<Rightarrow> Undefined)"

text \<open>The loop \<open>i < n\<close> again, for a body that may read out of range.\<close>

function for_lt_chk ::
  "unsigned \<Rightarrow> unsigned \<Rightarrow> (unsigned \<Rightarrow> 's \<Rightarrow> 's outcome) \<Rightarrow> 's \<Rightarrow> 's outcome" where
  "for_lt_chk i n body s =
     (if i < n then (case body i s of Returns s' \<Rightarrow> for_lt_chk (i + 1) n body s'
                                      | Undefined \<Rightarrow> Undefined)
      else Returns s)"
  by pat_completeness auto
termination
proof (relation "measure (\<lambda>(i, n, body, s). unat n - unat i)")
  show "wf (measure (\<lambda>(i, n, body, s). unat n - unat i))" by simp
next
  fix i n :: unsigned and body :: "unsigned \<Rightarrow> 's \<Rightarrow> 's outcome" and s s' :: 's
  assume "i < n"
  then have l: "unat i < unat n" by (simp add: word_less_nat_alt)
  moreover have "unat n < 2 ^ LENGTH(32)" by (rule unsigned_less)
  ultimately have "unat i + unat (1::unsigned) < 2 ^ LENGTH(32)" by simp
  then have "unat (i + 1) = unat i + unat (1::unsigned)" by (simp only: unat_add_lem)
  with l show "((i + 1, n, body, s'), (i, n, body, s))
      \<in> measure (\<lambda>(i, n, body, s). unat n - unat i)"
    by simp
qed

declare for_lt_chk.simps [simp del]

section \<open>The output stream\<close>

text \<open>
  \<^verbatim>\<open>FILE * outf\<close> is the list of the lines written so far. \<open>Text s\<close> is a line
  written by \<^verbatim>\<open>fprintf(outf, s)\<close> (\<open>s\<close> ends with the newline), \<open>Coords p\<close> the
  line written by \<^verbatim>\<open>fprintf(outf, "%f %f %f\n", p.x, p.y, p.z)\<close>.
\<close>

datatype line = Text string | Coords Point

type_synonym FILE = "line list"

definition gen_point_write_intern :: "FILE \<Rightarrow> Point \<Rightarrow> FILE" where
  "gen_point_write_intern outf p = outf @ [Coords p]"

definition gen_triangle_write_intern :: "FILE \<Rightarrow> Triangle \<Rightarrow> FILE" where
  "gen_triangle_write_intern outf tri =
     (let outf = gen_point_write_intern outf (Triangle.P1 tri);
          outf = gen_point_write_intern outf (Triangle.P2 tri)
      in gen_point_write_intern outf (Triangle.P3 tri))"

definition gen_rectangle_write_nodivs_intern :: "FILE \<Rightarrow> Rectangle \<Rightarrow> FILE" where
  "gen_rectangle_write_nodivs_intern outf rect =
     (let outf = gen_triangle_write_intern outf
                   (Triangle (Rectangle.P1 rect) (Rectangle.P2 rect) (Rectangle.P3 rect))
      in gen_triangle_write_intern outf
           (Triangle (Rectangle.P3 rect) (Rectangle.P2 rect) (Rectangle.P4 rect)))"

section \<open>Planar subdivider\<close>

text \<open>
  \<^verbatim>\<open>(float) ndivs\<close> is \<open>real (unat ndivs)\<close>; \<^verbatim>\<open>i - 1\<close> is computed on
  \<^verbatim>\<open>unsigned\<close> before the conversion.
\<close>

definition gen_rectangle_write_intern :: "FILE \<Rightarrow> Rectangle \<Rightarrow> unsigned \<Rightarrow> FILE option" where
  "gen_rectangle_write_intern outf rect ndivs =
     (let vw = normalize_P (add_P (Rectangle.P3 rect) (scale_fP (- 1) (Rectangle.P1 rect)));
          vh = normalize_P (add_P (Rectangle.P2 rect) (scale_fP (- 1) (Rectangle.P1 rect)));
          w = dist_P (Rectangle.P3 rect) (Rectangle.P1 rect) / real (unat ndivs);
          h = dist_P (Rectangle.P2 rect) (Rectangle.P1 rect) / real (unat ndivs)
      in for_le 1 ndivs (\<lambda>i outf.
           for_le 1 ndivs (\<lambda>j outf.
             let P1 = add_P (add_P (Rectangle.P1 rect) (scale_fP (real (unat (i - 1)) * w) vw))
                            (scale_fP (real (unat (j - 1)) * h) vh);
                 P2 = add_P (add_P (Rectangle.P1 rect) (scale_fP (real (unat (i - 1)) * w) vw))
                            (scale_fP (real (unat j) * h) vh);
                 P3 = add_P (add_P (Rectangle.P1 rect) (scale_fP (real (unat i) * w) vw))
                            (scale_fP (real (unat (j - 1)) * h) vh);
                 P4 = add_P (add_P (Rectangle.P1 rect) (scale_fP (real (unat i) * w) vw))
                            (scale_fP (real (unat j) * h) vh)
             in Some (gen_rectangle_write_nodivs_intern outf (Rectangle P1 P2 P3 P4))) outf) outf)"

definition gen_box_write_intern :: "FILE \<Rightarrow> Box \<Rightarrow> unsigned \<Rightarrow> FILE option" where
  "gen_box_write_intern outf box ndivs =
     (let p1 = Rectangle.P1 (top box); p2 = Rectangle.P2 (top box);
          p3 = Rectangle.P3 (top box); p4 = Rectangle.P4 (top box);
          p5 = Rectangle.P1 (bottom box); p6 = Rectangle.P2 (bottom box);
          p7 = Rectangle.P3 (bottom box); p8 = Rectangle.P4 (bottom box)
      in Option.bind (gen_rectangle_write_intern outf (Rectangle p1 p5 p2 p6) ndivs) (\<lambda>outf.
         Option.bind (gen_rectangle_write_intern outf (Rectangle p3 p7 p1 p5) ndivs) (\<lambda>outf.
         Option.bind (gen_rectangle_write_intern outf (Rectangle p7 p8 p5 p6) ndivs) (\<lambda>outf.
         Option.bind (gen_rectangle_write_intern outf (Rectangle p2 p6 p4 p8) ndivs) (\<lambda>outf.
         Option.bind (gen_rectangle_write_intern outf (Rectangle p4 p8 p3 p7) ndivs) (\<lambda>outf.
         gen_rectangle_write_intern outf (top box) ndivs))))))"


section \<open>Surfaces of revolution\<close>

text \<open>
  \<^verbatim>\<open>M_PI\<close> is \<open>pi\<close>; \<^verbatim>\<open>(float) c.slices\<close> is \<open>real (unat (slices c))\<close>.
  \<^verbatim>\<open>c.stacks - 1\<close> is computed on \<^verbatim>\<open>unsigned\<close>.
\<close>

definition gen_cone_write_intern :: "FILE \<Rightarrow> Cone \<Rightarrow> FILE" where
  "gen_cone_write_intern outf c =
     (let a = (2 * pi) / real (unat (Cone.slices c));
          O' = Point 0 0 0;
          st = real (unat (Cone.stacks c))
      in for_lt 0 (Cone.slices c) (\<lambda>i outf.
           let I = real (unat i);
               outf =
                 (let R = Cone.rad c / st;
                      H = Cone.height c * (st - 1) / st;
                      xi = R * sin (I * a);
                      zi = R * cos (I * a);
                      xi1 = R * sin ((I + 1) * a);
                      zi1 = R * cos ((I + 1) * a)
                  in gen_triangle_write_intern outf
                       (Triangle (Point 0 (Cone.height c) 0) (Point xi H zi) (Point xi1 H zi1)));
               outf =
                 (let xi = Cone.rad c * sin (I * a);
                      zi = Cone.rad c * cos (I * a);
                      xi1 = Cone.rad c * sin ((I + 1) * a);
                      zi1 = Cone.rad c * cos ((I + 1) * a)
                  in gen_triangle_write_intern outf
                       (Triangle (Point xi 0 zi) (Point 0 0 0) (Point xi1 0 zi1)))
           in for_lt 0 (Cone.stacks c - 1) (\<lambda>j outf.
                let J = real (unat j);
                    y = Cone.height c * (J / st);
                    y1 = Cone.height c * ((J + 1) / st);
                    r = Cone.rad c * (st - J) / st;
                    r1 = Cone.rad c * (st - J - 1) / st;
                    P1 = Point (r1 * sin (I * a)) y1 (r1 * cos (I * a));
                    P2 = Point (r * sin (I * a)) y (r * cos (I * a));
                    P3 = Point (r1 * sin ((I + 1) * a)) y1 (r1 * cos ((I + 1) * a));
                    P4 = Point (r * sin ((I + 1) * a)) y (r * cos ((I + 1) * a))
                in gen_rectangle_write_nodivs_intern outf (Rectangle P1 P2 P3 P4)) outf) outf)"

definition gen_cylinder_write_intern :: "FILE \<Rightarrow> Cylinder \<Rightarrow> FILE" where
  "gen_cylinder_write_intern outf c =
     (let a = (2 * pi) / real (unat (Cylinder.slices c));
          O' = Point 0 (- Cylinder.height c / 2) 0;
          C = Point 0 (Cylinder.height c / 2) 0
      in for_lt 0 (Cylinder.slices c) (\<lambda>i outf.
           let I = real (unat i);
               xi = Cylinder.rad c * sin (I * a);
               zi = Cylinder.rad c * cos (I * a);
               xi1 = Cylinder.rad c * sin ((I + 1) * a);
               zi1 = Cylinder.rad c * cos ((I + 1) * a);
               PiB = Point xi (- Cylinder.height c / 2) zi;
               Pi1B = Point xi1 (- Cylinder.height c / 2) zi1;
               PiT = Point xi (Cylinder.height c / 2) zi;
               Pi1T = Point xi1 (Cylinder.height c / 2) zi1;
               Bi = Triangle PiB O' Pi1B;
               Ti = Triangle C PiT Pi1T;
               outf = gen_triangle_write_intern outf Bi;
               outf = for_lt 0 (Cylinder.stacks c) (\<lambda>j outf.
                        let dh = Cylinder.height c / real (unat (Cylinder.stacks c));
                            y13 = real (unat (j + 1)) * dh;
                            y24 = real (unat j) * dh;
                            P1 = add_P PiB (Point 0 y13 0);
                            P2 = add_P PiB (Point 0 y24 0);
                            P3 = add_P Pi1B (Point 0 y13 0);
                            P4 = add_P Pi1B (Point 0 y24 0)
                        in gen_rectangle_write_nodivs_intern outf (Rectangle P1 P2 P3 P4)) outf
           in gen_triangle_write_intern outf Ti) outf)"

text \<open>
  The sphere first fills the vectors \<^verbatim>\<open>verts\<close> and \<^verbatim>\<open>normals\<close> (two nested
  \<open>i <= n\<close> loops, the state is the pair of vectors), then walks them twice.
  \<^verbatim>\<open>reserve\<close> does not change the size of a vector. \<^verbatim>\<open>len\<close> and the indices
  \<^verbatim>\<open>i + sph.slices + 1\<close> are computed on \<^verbatim>\<open>unsigned\<close>.
\<close>

definition sphere_fill :: "Sphere \<Rightarrow> (Point list \<times> Point list) option" where
  "sphere_fill sph =
     for_le 0 (Sphere.stacks sph) (\<lambda>i (verts, normals).
       let lat = real (unat i) / real (unat (Sphere.stacks sph)) * pi
       in for_le 0 (Sphere.slices sph) (\<lambda>j (verts, normals).
            let lon = real (unat j) / real (unat (Sphere.slices sph)) * 2 * pi;
                clat = cos lat;
                clon = cos lon;
                slat = sin lat;
                slon = sin lon;
                x = Sphere.rad sph * clon * slat;
                y = Sphere.rad sph * clat;
                z = Sphere.rad sph * slon * slat
            in Some (verts @ [Point x y z], normals @ [normalize_P (Point x y z)]))
            (verts, normals))
       ([], [])"

definition sphere_draw :: "Sphere \<Rightarrow> Point list \<Rightarrow> unsigned \<Rightarrow> FILE \<Rightarrow> FILE outcome" where
  "sphere_draw sph verts len outf =
     for_lt_chk 0 len (\<lambda>i outf.
       obind (vec_at verts (unat i)) (\<lambda>P1.
       obind (vec_at verts (unat (i + Sphere.slices sph + 1))) (\<lambda>P2.
       obind (vec_at verts (unat (i + Sphere.slices sph))) (\<lambda>P3.
       obind (vec_at verts (unat (i + 1))) (\<lambda>P4.
         let outf = gen_triangle_write_intern outf (Triangle P1 P2 P3)
         in Returns (gen_triangle_write_intern outf (Triangle P2 P1 P4))))))) outf"

definition str_normals :: string where
  "str_normals = ''normals'' @ [CHR 0x0A]"

definition gen_sphere_write_intern :: "FILE \<Rightarrow> Sphere \<Rightarrow> FILE outcome option" where
  "gen_sphere_write_intern outf sph =
     Option.bind (sphere_fill sph) (\<lambda>(verts, normals).
       let len = Sphere.slices sph * Sphere.stacks sph + Sphere.slices sph
       in Some (obind (sphere_draw sph verts len outf) (\<lambda>outf.
                  let outf = outf @ [Text str_normals]
                  in sphere_draw sph normals len outf)))"


section \<open>Bezier patches\<close>

definition gen_bezier_get_single_point :: "Point list list \<Rightarrow> real \<Rightarrow> real \<Rightarrow> Point" where
  "gen_bezier_get_single_point MPM u v =
     (let tmp = map (\<lambda>j. add_P (add_P (add_P (scale_fP (u * u * u) (MPM ! j ! 0))
                                               (scale_fP (u * u) (MPM ! j ! 1)))
                                        (scale_fP u (MPM ! j ! 2)))
                                 (MPM ! j ! 3)) [0..<4]
      in add_P (add_P (add_P (scale_fP (v * v * v) (tmp ! 0))
                             (scale_fP (v * v) (tmp ! 1)))
                      (scale_fP v (tmp ! 2)))
               (tmp ! 3))"

text \<open>\<^verbatim>\<open>cps[idxs[k]]\<close>: two unchecked reads.\<close>

definition cp_at :: "Point list \<Rightarrow> unsigned list \<Rightarrow> nat \<Rightarrow> Point outcome" where
  "cp_at cps idxs k = obind (vec_at idxs k) (\<lambda>idx. vec_at cps (unat idx))"

fun collect :: "'a outcome list \<Rightarrow> 'a list outcome" where
  "collect [] = Returns []"
| "collect (r # rs) = obind r (\<lambda>a. obind (collect rs) (\<lambda>as. Returns (a # as)))"

text \<open>
  The source's \<^verbatim>\<open>u_\<close> and \<^verbatim>\<open>v_\<close> are \<open>u'\<close> and \<open>v'\<close> here.
  \<^verbatim>\<open>4 * tessellation\<close> in the loop conditions is an \<^verbatim>\<open>unsigned\<close> product (it
  wraps); \<^verbatim>\<open>4.0 * tessellation\<close> in the parameters is a \<^verbatim>\<open>double\<close> product.
\<close>

definition gen_bezier_patch_single ::
  "FILE \<Rightarrow> real list list \<Rightarrow> Point list \<Rightarrow> unsigned list \<Rightarrow> unsigned \<Rightarrow> FILE outcome option" where
  "gen_bezier_patch_single outf M cps idxs tessellation =
     (case collect
        [collect [cp_at cps idxs 0, cp_at cps idxs 1, cp_at cps idxs 2, cp_at cps idxs 3],
         collect [cp_at cps idxs 4, cp_at cps idxs 5, cp_at cps idxs 6, cp_at cps idxs 7],
         collect [cp_at cps idxs 8, cp_at cps idxs 9, cp_at cps idxs 10, cp_at cps idxs 11],
         collect [cp_at cps idxs 12, cp_at cps idxs 13, cp_at cps idxs 14, cp_at cps idxs 15]]
      of Undefined \<Rightarrow> Some Undefined
       | Returns P \<Rightarrow>
          (let MPM = mult_MPM M P
           in map_option Returns
                (for_le 1 (4 * tessellation) (\<lambda>i outf.
                   let u' = (real (unat i) - 1) / (4 * real (unat tessellation));
                       u = real (unat i) / (4 * real (unat tessellation))
                   in for_le 1 (4 * tessellation) (\<lambda>j outf.
                        let v' = (real (unat j) - 1) / (4 * real (unat tessellation));
                            v = real (unat j) / (4 * real (unat tessellation));
                            P1 = gen_bezier_get_single_point MPM u v';
                            P2 = gen_bezier_get_single_point MPM u v;
                            P3 = gen_bezier_get_single_point MPM u' v';
                            P4 = gen_bezier_get_single_point MPM u' v;
                            R = Rectangle P1 P2 P3 P4
                        in Some (gen_rectangle_write_nodivs_intern outf R)) outf) outf)))"

text \<open>The range-based \<^verbatim>\<open>for\<close> over the patches.\<close>

fun bezier_patches ::
  "FILE \<Rightarrow> real list list \<Rightarrow> Point list \<Rightarrow> unsigned list list \<Rightarrow> unsigned \<Rightarrow> FILE outcome option" where
  "bezier_patches outf M cps [] tessellation = Some (Returns outf)"
| "bezier_patches outf M cps (patch # patches) tessellation =
     (case gen_bezier_patch_single outf M cps patch tessellation of
        None \<Rightarrow> None
      | Some Undefined \<Rightarrow> Some Undefined
      | Some (Returns outf') \<Rightarrow> bezier_patches outf' M cps patches tessellation)"

definition gen_bezier_patch_write_intern ::
  "FILE \<Rightarrow> Point list \<Rightarrow> unsigned list list \<Rightarrow> unsigned \<Rightarrow> FILE outcome option" where
  "gen_bezier_patch_write_intern outf cps patches tessellation =
     bezier_patches outf bezier_M cps patches tessellation"

text \<open>
  \<^verbatim>\<open>gen_bezier_patch_read\<close> fills \<^verbatim>\<open>cps\<close> and \<^verbatim>\<open>patches\<close> from the input file
  with \<^verbatim>\<open>fscanf\<close>; it pushes sixteen indices for every patch it reads. The input of
  the model is the pair of vectors after that call.
\<close>

type_synonym bezier_input = "Point list \<times> unsigned list list"

definition newline :: char where
  "newline = CHR 0x0A"

definition gen_bezier_patch_write :: "FILE \<Rightarrow> bezier_input \<Rightarrow> unsigned \<Rightarrow> FILE outcome option" where
  "gen_bezier_patch_write outf inp tessellation =
     (case inp of (cps, patches) \<Rightarrow>
        let outf = outf @ [Text (''bezier'' @ [newline])]
        in gen_bezier_patch_write_intern outf cps patches tessellation)"

section \<open>The writing functions\<close>

text \<open>The macros \<^verbatim>\<open>gen_write\<close> and \<^verbatim>\<open>gen_write_divs\<close>: the header line, then the figure.\<close>

definition gen_triangle_write :: "FILE \<Rightarrow> Triangle \<Rightarrow> FILE" where
  "gen_triangle_write outf triangle =
     gen_triangle_write_intern (outf @ [Text (''triangle'' @ [newline])]) triangle"

definition gen_rectangle_write :: "FILE \<Rightarrow> Rectangle \<Rightarrow> unsigned \<Rightarrow> FILE option" where
  "gen_rectangle_write outf rectangle ndivs =
     gen_rectangle_write_intern (outf @ [Text (''rectangle'' @ [newline])]) rectangle ndivs"

definition gen_box_write :: "FILE \<Rightarrow> Box \<Rightarrow> unsigned \<Rightarrow> FILE option" where
  "gen_box_write outf box ndivs =
     gen_box_write_intern (outf @ [Text (''box'' @ [newline])]) box ndivs"

definition gen_cone_write :: "FILE \<Rightarrow> Cone \<Rightarrow> FILE" where
  "gen_cone_write outf cone =
     gen_cone_write_intern (outf @ [Text (''cone'' @ [newline])]) cone"

definition gen_cylinder_write :: "FILE \<Rightarrow> Cylinder \<Rightarrow> FILE" where
  "gen_cylinder_write outf cylinder =
     gen_cylinder_write_intern (outf @ [Text (''cylinder'' @ [newline])]) cylinder"

definition gen_sphere_write :: "FILE \<Rightarrow> Sphere \<Rightarrow> FILE outcome option" where
  "gen_sphere_write outf sphere =
     gen_sphere_write_intern (outf @ [Text (''sphere'' @ [newline])]) sphere"

section \<open>The reading functions\<close>

text \<open>
  The reader sees its input through \<^verbatim>\<open>fgets\<close> and \<^verbatim>\<open>sscanf\<close>, which are not
  code of generators.cpp. The input file is the list of the strings that the
  successive calls \<^verbatim>\<open>fgets(line, 1024, inf)\<close> deliver (for a file whose lines are
  shorter than 1024 bytes: its lines, each with its newline); after the last one
  \<^verbatim>\<open>fgets\<close> returns \<^verbatim>\<open>NULL\<close>. \<^verbatim>\<open>sscanf(line, "%f %f %f\n", ...)\<close> is a parameter:
  it gives the return value and the point after the assignments it made.
  The source's \<^verbatim>\<open>inf\<close> and \<^verbatim>\<open>norm\<close> are \<open>inp\<close> and \<open>nrm\<close> here.
\<close>

type_synonym sscanf_fff = "string \<Rightarrow> Point \<Rightarrow> int \<times> Point"

definition EOF :: int where
  "EOF = - 1"

definition gen_point_read :: "sscanf_fff \<Rightarrow> string \<Rightarrow> Point \<Rightarrow> int \<times> Point" where
  "gen_point_read sscanf line pt = sscanf line pt"

text \<open>The first \<^verbatim>\<open>while\<close> of \<^verbatim>\<open>gen_model_read\<close>; it returns what is left of the input.\<close>

fun read_vec :: "sscanf_fff \<Rightarrow> string list \<Rightarrow> Point \<Rightarrow> Point list
    \<Rightarrow> Point list \<times> string list \<times> Point" where
  "read_vec sscanf [] pt vec = (vec, [], pt)"
| "read_vec sscanf (line # inp) pt vec =
     (if line = str_normals then (vec, inp, pt)
      else (case gen_point_read sscanf line pt of (r, pt') \<Rightarrow>
              if r \<noteq> EOF then read_vec sscanf inp (Point 0 0 0) (vec @ [pt'])
              else (vec, inp, pt')))"

text \<open>The second \<^verbatim>\<open>while\<close>.\<close>

fun read_norm :: "sscanf_fff \<Rightarrow> string list \<Rightarrow> Point \<Rightarrow> Point list \<Rightarrow> Point list" where
  "read_norm sscanf [] pt nrm = nrm"
| "read_norm sscanf (line # inp) pt nrm =
     (case gen_point_read sscanf line pt of (r, pt') \<Rightarrow>
        if r \<noteq> EOF then read_norm sscanf inp (Point 0 0 0) (nrm @ [pt'])
        else nrm)"

definition gen_model_read :: "sscanf_fff \<Rightarrow> string list \<Rightarrow> Point list \<Rightarrow> Point list
    \<Rightarrow> Point list \<times> Point list" where
  "gen_model_read sscanf inp vec nrm =
     (let inp = (case inp of [] \<Rightarrow> [] | line # rest \<Rightarrow> rest);
          pt = Point 0 0 0
      in case read_vec sscanf inp pt vec of (vec, inp, pt) \<Rightarrow>
           (vec, read_norm sscanf inp pt nrm))"

text \<open>
  What a file written by a generator looks like to the reader: \<open>printf p\<close> is the
  line that \<^verbatim>\<open>fprintf(outf, "%f %f %f\n", p.x, p.y, p.z)\<close> writes for the point \<open>p\<close>.
\<close>

fun as_text :: "(Point \<Rightarrow> string) \<Rightarrow> line \<Rightarrow> string" where
  "as_text printf (Text s) = s"
| "as_text printf (Coords p) = printf p"


section \<open>Vocabulary for the statements\<close>

text \<open>The three lines of a triangle, and the lines of a list of triangles.\<close>

definition tri_lines :: "Triangle \<Rightarrow> line list" where
  "tri_lines t = [Coords (Triangle.P1 t), Coords (Triangle.P2 t), Coords (Triangle.P3 t)]"

definition mesh_lines :: "Triangle list \<Rightarrow> line list" where
  "mesh_lines ts = concat (map tri_lines ts)"

text \<open>The diagonal split of a quadrilateral: \<open>(P1, P2, P3)\<close>, then \<open>(P3, P2, P4)\<close>.\<close>

definition split_quad :: "Rectangle \<Rightarrow> Triangle list" where
  "split_quad r =
     [Triangle (Rectangle.P1 r) (Rectangle.P2 r) (Rectangle.P3 r),
      Triangle (Rectangle.P3 r) (Rectangle.P2 r) (Rectangle.P4 r)]"

text \<open>
  The triangles a renderer finds in a file: the coordinate lines, three by three
  (\<open>Text\<close> lines are headers and markers).
\<close>

fun group3 :: "Point list \<Rightarrow> Triangle list" where
  "group3 (a # b # c # ps) = Triangle a b c # group3 ps"
| "group3 ps = []"

definition triangles_of :: "line list \<Rightarrow> Triangle list" where
  "triangles_of ls = group3 (concat (map (\<lambda>l. case l of Coords p \<Rightarrow> [p] | Text s \<Rightarrow> []) ls))"

text \<open>
  The cylinder of the specification. \<open>cyl_ring c h t\<close> is the point of the ring
  at height \<open>h\<close> and angle \<open>t \<cdot> 2\<pi> / slices\<close>; a slice is the base fan triangle
  (ring point, centre, next ring point), the side quadrilaterals of the stacks, each
  split in two, and the top fan triangle (centre, ring point, next ring point).
\<close>

definition cyl_ring :: "Cylinder \<Rightarrow> real \<Rightarrow> real \<Rightarrow> Point" where
  "cyl_ring c h t =
     Point (Cylinder.rad c * sin (t * (2 * pi / real (unat (Cylinder.slices c))))) h
           (Cylinder.rad c * cos (t * (2 * pi / real (unat (Cylinder.slices c)))))"

definition cyl_base :: "Cylinder \<Rightarrow> nat \<Rightarrow> Triangle" where
  "cyl_base c i =
     (let lo = - Cylinder.height c / 2
      in Triangle (cyl_ring c lo (real i)) (Point 0 lo 0) (cyl_ring c lo (real i + 1)))"

definition cyl_top :: "Cylinder \<Rightarrow> nat \<Rightarrow> Triangle" where
  "cyl_top c i =
     (let hi = Cylinder.height c / 2
      in Triangle (Point 0 hi 0) (cyl_ring c hi (real i)) (cyl_ring c hi (real i + 1)))"

definition cyl_side :: "Cylinder \<Rightarrow> nat \<Rightarrow> nat \<Rightarrow> Rectangle" where
  "cyl_side c i j =
     (let lo = - Cylinder.height c / 2;
          dh = Cylinder.height c / real (unat (Cylinder.stacks c))
      in Rectangle (cyl_ring c (lo + real (j + 1) * dh) (real i))
                   (cyl_ring c (lo + real j * dh) (real i))
                   (cyl_ring c (lo + real (j + 1) * dh) (real i + 1))
                   (cyl_ring c (lo + real j * dh) (real i + 1)))"

definition cyl_slice :: "Cylinder \<Rightarrow> nat \<Rightarrow> Triangle list" where
  "cyl_slice c i =
     [cyl_base c i] @
     concat (map (\<lambda>j. split_quad (cyl_side c i j)) [0..<unat (Cylinder.stacks c)]) @
     [cyl_top c i]"

definition cylinder_triangles :: "Cylinder \<Rightarrow> Triangle list" where
  "cylinder_triangles c = concat (map (cyl_slice c) [0..<unat (Cylinder.slices c)])"

text \<open>
  The cone of the specification: per slice the tip triangle (apex, ring of radius
  \<open>rad / stacks\<close> at height \<open>height \<cdot> (stacks - 1) / stacks\<close>), the base fan
  triangle at \<open>y = 0\<close>, and the side quadrilaterals of the stacks
  \<open>j = 0, \<dots>, stacks - 2\<close>: lower edge of radius \<open>rad \<cdot> (stacks - j) / stacks\<close> at
  height \<open>height \<cdot> j / stacks\<close>, upper edge of radius
  \<open>rad \<cdot> (stacks - j - 1) / stacks\<close> at height \<open>height \<cdot> (j + 1) / stacks\<close>.
\<close>

definition cone_ring :: "Cone \<Rightarrow> real \<Rightarrow> real \<Rightarrow> real \<Rightarrow> Point" where
  "cone_ring c r h t =
     Point (r * sin (t * (2 * pi / real (unat (Cone.slices c))))) h
           (r * cos (t * (2 * pi / real (unat (Cone.slices c)))))"

definition cone_tip :: "Cone \<Rightarrow> nat \<Rightarrow> Triangle" where
  "cone_tip c i =
     (let st = real (unat (Cone.stacks c));
          R = Cone.rad c / st;
          H = Cone.height c * (st - 1) / st
      in Triangle (Point 0 (Cone.height c) 0) (cone_ring c R H (real i)) (cone_ring c R H (real i + 1)))"

definition cone_base :: "Cone \<Rightarrow> nat \<Rightarrow> Triangle" where
  "cone_base c i =
     Triangle (cone_ring c (Cone.rad c) 0 (real i)) (Point 0 0 0)
              (cone_ring c (Cone.rad c) 0 (real i + 1))"

definition cone_side :: "Cone \<Rightarrow> nat \<Rightarrow> nat \<Rightarrow> Rectangle" where
  "cone_side c i j =
     (let st = real (unat (Cone.stacks c));
          lower_r = Cone.rad c * (st - real j) / st;
          upper_r = Cone.rad c * (st - real j - 1) / st;
          lower_h = Cone.height c * (real j / st);
          upper_h = Cone.height c * ((real j + 1) / st)
      in Rectangle (cone_ring c upper_r upper_h (real i))
                   (cone_ring c lower_r lower_h (real i))
                   (cone_ring c upper_r upper_h (real i + 1))
                   (cone_ring c lower_r lower_h (real i + 1)))"

definition cone_slice :: "Cone \<Rightarrow> nat \<Rightarrow> Triangle list" where
  "cone_slice c i =
     [cone_tip c i, cone_base c i] @
     concat (map (\<lambda>j. split_quad (cone_side c i j)) [0..<unat (Cone.stacks c) - 1])"

definition cone_triangles :: "Cone \<Rightarrow> Triangle list" where
  "cone_triangles c = concat (map (cone_slice c) [0..<unat (Cone.slices c)])"

text \<open>
  The subdivided rectangle of the specification: the corner \<open>(a, b)\<close> of the grid
  lies \<open>a\<close> steps of length \<open>w\<close> along the unit vector from \<open>P1\<close> to \<open>P3\<close> and
  \<open>b\<close> steps of length \<open>h\<close> along the unit vector from \<open>P1\<close> to \<open>P2\<close>; the cell
  \<open>(i, j)\<close>, \<open>1 \<le> i, j \<le> n\<close>, has the corners \<open>(i - 1, j - 1)\<close>, \<open>(i - 1, j)\<close>,
  \<open>(i, j - 1)\<close>, \<open>(i, j)\<close>, in that order; the cells are walked with \<open>i\<close> outer
  and \<open>j\<close> inner.
\<close>

definition rect_corner :: "Rectangle \<Rightarrow> nat \<Rightarrow> nat \<Rightarrow> nat \<Rightarrow> Point" where
  "rect_corner rect n a b =
     (let vw = normalize_P (add_P (Rectangle.P3 rect) (scale_fP (- 1) (Rectangle.P1 rect)));
          vh = normalize_P (add_P (Rectangle.P2 rect) (scale_fP (- 1) (Rectangle.P1 rect)));
          w = dist_P (Rectangle.P3 rect) (Rectangle.P1 rect) / real n;
          h = dist_P (Rectangle.P2 rect) (Rectangle.P1 rect) / real n
      in add_P (add_P (Rectangle.P1 rect) (scale_fP (real a * w) vw)) (scale_fP (real b * h) vh))"

definition rect_cell :: "Rectangle \<Rightarrow> nat \<Rightarrow> nat \<Rightarrow> nat \<Rightarrow> Rectangle" where
  "rect_cell rect n i j =
     Rectangle (rect_corner rect n (i - 1) (j - 1)) (rect_corner rect n (i - 1) j)
               (rect_corner rect n i (j - 1)) (rect_corner rect n i j)"

definition rectangle_triangles :: "Rectangle \<Rightarrow> nat \<Rightarrow> Triangle list" where
  "rectangle_triangles rect n =
     concat (map (\<lambda>i. concat (map (\<lambda>j. split_quad (rect_cell rect n i j)) [1..<Suc n]))
       [1..<Suc n])"

text \<open>The rectangle centred at the origin (\<^verbatim>\<open>gen_rectangle_from_wd\<close>).\<close>

definition gen_rectangle_from_wd :: "real \<Rightarrow> real \<Rightarrow> Rectangle" where
  "gen_rectangle_from_wd width depth =
     (let w = width / 2; d = depth / 2
      in Rectangle (Point (- w) 0 (- d)) (Point (- w) 0 d) (Point w 0 (- d)) (Point w 0 d))"

text \<open>
  The sphere of the specification. \<open>sphere_vertex sph i j\<close> is the vertex of stack
  \<open>i\<close> and slice \<open>j\<close>; \<open>sphere_grid\<close> lists the vertices row by row, the slices of
  a stack next to each other; \<open>sphere_walk S vs len\<close> is the walk of the flattened
  index \<open>i = 0, \<dots>, len - 1\<close> with its two triangles per index.
\<close>

definition sphere_vertex :: "Sphere \<Rightarrow> nat \<Rightarrow> nat \<Rightarrow> Point" where
  "sphere_vertex sph i j =
     (let lat = real i / real (unat (Sphere.stacks sph)) * pi;
          lon = real j / real (unat (Sphere.slices sph)) * 2 * pi
      in Point (Sphere.rad sph * cos lon * sin lat)
               (Sphere.rad sph * cos lat)
               (Sphere.rad sph * sin lon * sin lat))"

definition sphere_grid :: "Sphere \<Rightarrow> Point list" where
  "sphere_grid sph =
     concat (map (\<lambda>i. map (\<lambda>j. sphere_vertex sph i j) [0..<Suc (unat (Sphere.slices sph))])
       [0..<Suc (unat (Sphere.stacks sph))])"

definition sphere_walk :: "nat \<Rightarrow> Point list \<Rightarrow> nat \<Rightarrow> Triangle list" where
  "sphere_walk S vs len =
     concat (map (\<lambda>i. [Triangle (vs ! i) (vs ! (i + S + 1)) (vs ! (i + S)),
                         Triangle (vs ! (i + S + 1)) (vs ! i) (vs ! (i + 1))]) [0..<len])"

text \<open>
  One step of the drawing loop as the code computes it, with its indices on
  \<^verbatim>\<open>unsigned\<close>, and the condition that the four indices of step \<open>i\<close> lie in a vector
  of \<open>L\<close> entries.
\<close>

definition sphere_step :: "Sphere \<Rightarrow> Point list \<Rightarrow> unsigned \<Rightarrow> Triangle list" where
  "sphere_step sph vs i =
     [Triangle (vs ! unat i) (vs ! unat (i + Sphere.slices sph + 1)) (vs ! unat (i + Sphere.slices sph)),
      Triangle (vs ! unat (i + Sphere.slices sph + 1)) (vs ! unat i) (vs ! unat (i + 1))]"

definition sphere_in_bounds :: "Sphere \<Rightarrow> nat \<Rightarrow> unsigned \<Rightarrow> bool" where
  "sphere_in_bounds sph L i \<longleftrightarrow>
     unat i < L \<and> unat (i + Sphere.slices sph + 1) < L \<and>
     unat (i + Sphere.slices sph) < L \<and> unat (i + 1) < L"

text \<open>
  The content of a written file: the points of its coordinate lines after the header,
  those before a \<open>normals\<close> line being the positions and those after it the normals.
  A file is \<open>produced\<close> when one of the seven writing functions returns it, starting
  from an empty file.
\<close>

definition coords_of :: "line list \<Rightarrow> Point list" where
  "coords_of ls = concat (map (\<lambda>l. case l of Coords p \<Rightarrow> [p] | Text s \<Rightarrow> []) ls)"

definition positions_of :: "line list \<Rightarrow> Point list" where
  "positions_of out = coords_of (takeWhile (\<lambda>l. l \<noteq> Text str_normals) (tl out))"

definition normals_of :: "line list \<Rightarrow> Point list" where
  "normals_of out = coords_of (dropWhile (\<lambda>l. l \<noteq> Text str_normals) (tl out))"

definition produced :: "line list \<Rightarrow> bool" where
  "produced out \<longleftrightarrow>
     (\<exists>t. gen_triangle_write [] t = out) \<or>
     (\<exists>r n. gen_rectangle_write [] r n = Some out) \<or>
     (\<exists>b n. gen_box_write [] b n = Some out) \<or>
     (\<exists>c. gen_cone_write [] c = out) \<or>
     (\<exists>c. gen_cylinder_write [] c = out) \<or>
     (\<exists>s. gen_sphere_write [] s = Some (Returns out)) \<or>
     (\<exists>inp t. gen_bezier_patch_write [] inp t = Some (Returns out))"

text \<open>Folds that stop at the first run that does not return.\<close>

fun fold_option :: "('a \<Rightarrow> 's \<Rightarrow> 's option) \<Rightarrow> 'a list \<Rightarrow> 's \<Rightarrow> 's option" where
  "fold_option f [] s = Some s"
| "fold_option f (k # ks) s = Option.bind (f k s) (fold_option f ks)"

fun fold_outcome :: "('a \<Rightarrow> 's \<Rightarrow> 's outcome) \<Rightarrow> 'a list \<Rightarrow> 's \<Rightarrow> 's outcome" where
  "fold_outcome f [] s = Returns s"
| "fold_outcome f (k # ks) s = obind (f k s) (fold_outcome f ks)"

section \<open>The blended control matrix\<close>

lemma fold_add_P:
  "x (fold (\<lambda>I ret. add_P ret (scale_fP (f I) (g I))) ks p) = x p + (\<Sum>k\<leftarrow>ks. x (g k) * f k)"
  "y (fold (\<lambda>I ret. add_P ret (scale_fP (f I) (g I))) ks p) = y p + (\<Sum>k\<leftarrow>ks. y (g k) * f k)"
  "z (fold (\<lambda>I ret. add_P ret (scale_fP (f I) (g I))) ks p) = z p + (\<Sum>k\<leftarrow>ks. z (g k) * f k)"
  by (induction ks arbitrary: p) (simp_all add: add_P_def scale_fP_def Point_def algebra_simps)

lemma sum_list_upt4: "(\<Sum>k\<leftarrow>[0..<4]. (f k :: real)) = (\<Sum>k<4. f k)"
  by (simp add: interv_sum_list_conv_sum_set_nat atLeast0LessThan)

lemma coord_dot_MP:
  "x (mat_dot_product_MP M P i j) = (\<Sum>k<4. x (P ! k ! j) * M ! i ! k)"
  "y (mat_dot_product_MP M P i j) = (\<Sum>k<4. y (P ! k ! j) * M ! i ! k)"
  "z (mat_dot_product_MP M P i j) = (\<Sum>k<4. z (P ! k ! j) * M ! i ! k)"
  by (simp_all add: mat_dot_product_MP_def fold_add_P sum_list_upt4 Point_def)

lemma coord_dot_PM:
  "x (mat_dot_product_PM T M i j) = (\<Sum>k<4. x (T ! i ! k) * M ! k ! j)"
  "y (mat_dot_product_PM T M i j) = (\<Sum>k<4. y (T ! i ! k) * M ! k ! j)"
  "z (mat_dot_product_PM T M i j) = (\<Sum>k<4. z (T ! i ! k) * M ! k ! j)"
  by (simp_all add: mat_dot_product_PM_def fold_add_P sum_list_upt4 Point_def)

lemma mult_MP_nth: "i < 4 \<Longrightarrow> j < 4 \<Longrightarrow> mult_MP M P ! i ! j = mat_dot_product_MP M P i j"
  by (simp add: mult_MP_def)

lemma transpose_bezier_M: "transpose bezier_M = bezier_M"
  by (simp add: bezier_M_def transpose.simps)

lemma Point_eqI: "x p = x q \<Longrightarrow> y p = y q \<Longrightarrow> z p = z q \<Longrightarrow> p = (q::Point)"
  by simp

text \<open>
  The code multiplies by \<open>M\<close> on both sides (\<^verbatim>\<open>mult_PM\<close> reads \<^verbatim>\<open>M[I][j]\<close>); for a
  symmetric \<open>M\<close> that is the product with the transpose.
\<close>

lemma MPM_entry_symmetric:
  assumes sym: "transpose M = M" and i: "i < 4"
  shows "mat_dot_product_PM (mult_MP M P) M i j =
     Point (spec_MPMt_entry M P x i j) (spec_MPMt_entry M P y i j) (spec_MPMt_entry M P z i j)"
proof -
  have swap: "(\<Sum>l<4. (\<Sum>k<4. c (P ! k ! l) * M ! i ! k) * M ! l ! j)
      = (\<Sum>k<4. \<Sum>l<4. M ! i ! k * c (P ! k ! l) * M ! l ! j)" for c :: "Point \<Rightarrow> real"
  proof -
    have "(\<Sum>l<4. (\<Sum>k<4. c (P ! k ! l) * M ! i ! k) * M ! l ! j)
        = (\<Sum>l<4. \<Sum>k<4. M ! i ! k * c (P ! k ! l) * M ! l ! j)"
      by (simp add: sum_distrib_right sum_distrib_left mult_ac)
    also have "\<dots> = (\<Sum>k<4. \<Sum>l<4. M ! i ! k * c (P ! k ! l) * M ! l ! j)"
      by (rule sum.swap)
    finally show ?thesis .
  qed
  have inner: "(\<Sum>l<4. c (mult_MP M P ! i ! l) * M ! l ! j)
      = (\<Sum>l<4. c (mat_dot_product_MP M P i l) * M ! l ! j)" for c :: "Point \<Rightarrow> real"
    by (rule sum.cong) (simp_all add: mult_MP_nth i)
  show ?thesis
    by (rule Point_eqI)
       (simp_all add: coord_dot_PM inner coord_dot_MP swap spec_MPMt_entry_def sym Point_def)
qed

text \<open>
  C1. For every 4 by 4 matrix \<open>P\<close> of control points, the matrix that \<^verbatim>\<open>mult_MPM\<close>
  computes with the Bezier basis matrix \<open>M\<close> is the product \<open>M \<cdot> P \<cdot> M\<^sup>T\<close>.
\<close>

theorem mult_MPM_is_M_P_Mt:
  "is4x4 P \<Longrightarrow> mult_MPM bezier_M P = spec_MPMt bezier_M P"
  by (simp add: mult_MPM_def mult_PM_def spec_MPMt_def MPM_entry_symmetric transpose_bezier_M)

theorem mult_MPM_is_M_P_Mt_witness:
  "is4x4 (replicate 4 (replicate 4 (Point 1 2 3)))
   \<and> mult_MPM bezier_M (replicate 4 (replicate 4 (Point 1 2 3)))
      = spec_MPMt bezier_M (replicate 4 (replicate 4 (Point 1 2 3)))"
  using mult_MPM_is_M_P_Mt [of "replicate 4 (replicate 4 (Point 1 2 3))"]
  by (simp add: is4x4_def)

section \<open>Counters\<close>

lemma unat_inc_lt: "i < (n::unsigned) \<Longrightarrow> unat (i + 1) = Suc (unat i)"
proof -
  assume "i < n"
  then have "unat i < unat n" by (simp add: word_less_nat_alt)
  moreover have "unat n < 2 ^ LENGTH(32)" by (rule unsigned_less)
  ultimately have "unat i + unat (1::unsigned) < 2 ^ LENGTH(32)" by simp
  then have "unat (i + 1) = unat i + unat (1::unsigned)" by (simp only: unat_add_lem)
  then show ?thesis by simp
qed

lemma unat_max: "unat (- 1 :: unsigned) = 4294967295"
  by (simp add: unsigned_minus_1_eq_mask mask_eq_exp_minus_1)

lemma unat_lt_max: "(n::unsigned) \<noteq> - 1 \<Longrightarrow> unat n < 4294967295"
proof -
  assume n: "n \<noteq> - 1"
  have "unat n < 2 ^ LENGTH(32)" by (rule unsigned_less)
  moreover have "unat n \<noteq> 4294967295"
  proof
    assume "unat n = 4294967295"
    then have "unat n = unat (- 1 :: unsigned)" by (simp add: unat_max)
    then have "n = - 1" by (simp only: word_unat_eq_iff)
    with n show False by simp
  qed
  ultimately show ?thesis by simp
qed

lemma unat_inc_le: "i \<le> n \<Longrightarrow> (n::unsigned) \<noteq> - 1 \<Longrightarrow> unat (i + 1) = Suc (unat i)"
proof -
  assume "i \<le> n" "n \<noteq> - 1"
  then have "unat i \<le> unat n" "unat n < 4294967295"
    using unat_lt_max[of n] by (simp_all add: word_le_nat_alt)
  then have "unat i + unat (1::unsigned) < 2 ^ LENGTH(32)" by simp
  then have "unat (i + 1) = unat i + unat (1::unsigned)" by (simp only: unat_add_lem)
  then show ?thesis by simp
qed

lemma unat_of_nat_below: "k \<le> unat (n::unsigned) \<Longrightarrow> unat (word_of_nat k :: unsigned) = k"
  by (rule le_unat_uoi)

section \<open>Loops as folds\<close>

lemma for_lt_fold: "for_lt i n body s = fold (\<lambda>k. body (of_nat k)) [unat i..<unat n] s"
proof (induction i n body s rule: for_lt.induct)
  case (1 i n body s)
  show ?case
  proof (cases "i < n")
    case True
    then have u: "unat (i + 1) = Suc (unat i)" by (rule unat_inc_lt)
    have l: "unat i < unat n" using True by (simp add: word_less_nat_alt)
    have "for_lt i n body s = for_lt (i + 1) n body (body i s)"
      using True by (subst for_lt.simps) simp
    also have "\<dots> = fold (\<lambda>k. body (of_nat k)) [Suc (unat i)..<unat n] (body i s)"
      using 1 True u by simp
    also have "\<dots> = fold (\<lambda>k. body (of_nat k)) [unat i..<unat n] s"
      using l by (simp add: upt_conv_Cons)
    finally show ?thesis .
  next
    case False
    then have "unat n \<le> unat i" by (simp add: word_less_nat_alt)
    with False show ?thesis by (subst for_lt.simps) simp
  qed
qed

lemma for_lt_chk_fold:
  "for_lt_chk i n body s = fold_outcome (\<lambda>k. body (of_nat k)) [unat i..<unat n] s"
proof (induction i n body s rule: for_lt_chk.induct)
  case (1 i n body s)
  show ?case
  proof (cases "i < n")
    case True
    then have u: "unat (i + 1) = Suc (unat i)" by (rule unat_inc_lt)
    have l: "unat i < unat n" using True by (simp add: word_less_nat_alt)
    have "for_lt_chk i n body s = obind (body i s) (for_lt_chk (i + 1) n body)"
      using True by (subst for_lt_chk.simps) (simp add: obind_def split: outcome.splits)
    also have "\<dots> = obind (body i s) (fold_outcome (\<lambda>k. body (of_nat k)) [Suc (unat i)..<unat n])"
      using 1 True u by (auto simp: obind_def split: outcome.splits)
    also have "\<dots> = fold_outcome (\<lambda>k. body (of_nat k)) [unat i..<unat n] s"
      using l by (simp add: upt_conv_Cons)
    finally show ?thesis .
  next
    case False
    then have "unat n \<le> unat i" by (simp add: word_less_nat_alt)
    with False show ?thesis by (subst for_lt_chk.simps) simp
  qed
qed

lemma for_le_fold:
  assumes "n \<noteq> - 1"
  shows "for_le i n body s = fold_option (\<lambda>k. body (of_nat k)) [unat i..<Suc (unat n)] s"
  using assms
proof (induction "Suc (unat n) - unat i" arbitrary: i s)
  case 0
  then have "\<not> i \<le> n" by (simp add: word_le_nat_alt)
  with 0 show ?case by (simp add: for_le.simps)
next
  case (Suc d)
  then have le: "i \<le> n" "unat i \<le> unat n" by (auto simp add: word_le_nat_alt)
  have u: "unat (i + 1) = Suc (unat i)"
    using le Suc.prems by (simp add: unat_inc_le)
  have "for_le i n body s = Option.bind (body i s) (\<lambda>s'. for_le (i + 1) n body s')"
    using le by (subst for_le.simps) simp
  also have "\<dots> = Option.bind (body i s)
      (\<lambda>s'. fold_option (\<lambda>k. body (of_nat k)) [Suc (unat i)..<Suc (unat n)] s')"
    using Suc.hyps(1)[of "i + 1"] Suc.hyps(2) Suc.prems u by simp
  also have "\<dots> = fold_option (\<lambda>k. body (of_nat k)) [unat i..<Suc (unat n)] s"
    using le by (simp add: upt_conv_Cons del: upt_Suc)
  finally show ?case .
qed

text \<open>With the largest bound the loop never ends, whatever the body does.\<close>

lemma for_le_max: "for_le i (- 1) body s = None"
proof -
  have "\<forall>i s. for_le i (- 1) body s = None"
  proof (rule for_le.fixp_induct [where P = "\<lambda>f. \<forall>i s. f i (- 1) body s = None"], goal_cases)
    case 1
    show ?case by (rule ccpo.admissibleI) (auto simp: flat_lub_def fun_lub_def)
  qed (simp_all add: bind_eq_None_conv)
  then show ?thesis by simp
qed

section \<open>Loops that append\<close>

lemma fold_append:
  "(\<And>k s. k \<in> set ks \<Longrightarrow> f k s = s @ g k) \<Longrightarrow> fold f ks s = s @ concat (map g ks)"
  by (induction ks arbitrary: s) simp_all

lemma fold_option_append:
  "(\<And>k s. k \<in> set ks \<Longrightarrow> f k s = Some (s @ g k)) \<Longrightarrow> fold_option f ks s = Some (s @ concat (map g ks))"
  by (induction ks arbitrary: s) simp_all

lemma fold_outcome_append:
  "(\<And>k s. k \<in> set ks \<Longrightarrow> f k s = Returns (s @ g k)) \<Longrightarrow> fold_outcome f ks s = Returns (s @ concat (map g ks))"
  by (induction ks arbitrary: s) (simp_all add: obind_def)

lemma for_lt_append:
  assumes "\<And>k s. k < unat n \<Longrightarrow> body (of_nat k) s = s @ g k"
  shows "for_lt 0 n body s = s @ concat (map g [0..<unat n])"
proof -
  have "fold (\<lambda>k. body (of_nat k)) [0..<unat n] s = s @ concat (map g [0..<unat n])"
    by (rule fold_append) (simp add: assms)
  then show ?thesis by (simp add: for_lt_fold)
qed

lemma for_lt_chk_append:
  assumes "\<And>k s. k < unat n \<Longrightarrow> body (of_nat k) s = Returns (s @ g k)"
  shows "for_lt_chk 0 n body s = Returns (s @ concat (map g [0..<unat n]))"
proof -
  have "fold_outcome (\<lambda>k. body (of_nat k)) [0..<unat n] s
      = Returns (s @ concat (map g [0..<unat n]))"
    by (rule fold_outcome_append) (simp add: assms)
  then show ?thesis by (simp add: for_lt_chk_fold)
qed

lemma for_le_append:
  assumes "n \<noteq> - 1" and "\<And>k s. unat i \<le> k \<Longrightarrow> k \<le> unat n \<Longrightarrow> body (of_nat k) s = Some (s @ g k)"
  shows "for_le i n body s = Some (s @ concat (map g [unat i..<Suc (unat n)]))"
  unfolding for_le_fold[OF assms(1)] by (rule fold_option_append, rule assms(2)) auto


section \<open>Writers append\<close>

lemma of_nat_lt_unat:
  "k < unat (n::unsigned) \<Longrightarrow> (word_of_nat k :: unsigned) < n \<and> unat (word_of_nat k :: unsigned) = k"
proof -
  assume k: "k < unat n"
  then have u: "unat (word_of_nat k :: unsigned) = k" using le_unat_uoi[of k n] by simp
  with k show ?thesis by (simp add: word_less_nat_alt)
qed

lemma for_lt_append_unat:
  assumes "\<And>i s. i < n \<Longrightarrow> body i s = s @ g (unat i)"
  shows "for_lt 0 n body s = s @ concat (map g [0..<unat n])"
proof (rule for_lt_append)
  fix k s assume "k < unat n"
  then have "(word_of_nat k :: unsigned) < n" "unat (word_of_nat k :: unsigned) = k"
    by (simp_all add: of_nat_lt_unat)
  then show "body (word_of_nat k) s = s @ g k" using assms[of "word_of_nat k" s] by simp
qed

lemma mesh_lines_append: "mesh_lines (ts @ us) = mesh_lines ts @ mesh_lines us"
  by (simp add: mesh_lines_def)

lemma mesh_lines_Nil: "mesh_lines [] = []"
  by (simp add: mesh_lines_def)

lemma mesh_lines_Cons: "mesh_lines (t # ts) = tri_lines t @ mesh_lines ts"
  by (simp add: mesh_lines_def)

lemma mesh_lines_concat: "mesh_lines (concat tss) = concat (map mesh_lines tss)"
  by (induction tss) (simp_all add: mesh_lines_append mesh_lines_Nil)

lemma triangle_write: "gen_triangle_write_intern outf t = outf @ tri_lines t"
  by (simp add: gen_triangle_write_intern_def gen_point_write_intern_def tri_lines_def)

lemma rectangle_write_nodivs:
  "gen_rectangle_write_nodivs_intern outf r = outf @ mesh_lines (split_quad r)"
  by (simp add: gen_rectangle_write_nodivs_intern_def split_quad_def triangle_write
      mesh_lines_Cons mesh_lines_Nil)

lemma group3_tris: "group3 (concat (map (\<lambda>t. [Triangle.P1 t, Triangle.P2 t, Triangle.P3 t]) ts)) = ts"
  by (induction ts) (simp_all add: Triangle_def)

lemma triangles_of_mesh: "triangles_of (Text s # mesh_lines ts) = ts"
proof -
  have "concat (map (\<lambda>l. case l of Coords p \<Rightarrow> [p] | Text s \<Rightarrow> []) (mesh_lines ts))
      = concat (map (\<lambda>t. [Triangle.P1 t, Triangle.P2 t, Triangle.P3 t]) ts)"
    by (induction ts) (simp_all add: mesh_lines_def tri_lines_def)
  then show ?thesis by (simp add: triangles_of_def group3_tris)
qed

lemma length_concat_const:
  "(\<And>u. u \<in> set us \<Longrightarrow> length (f u) = n) \<Longrightarrow> length (concat (map f us)) = length us * n"
  by (induction us) simp_all

section \<open>The cylinder\<close>

lemma cylinder_intern:
  "gen_cylinder_write_intern outf c = outf @ mesh_lines (cylinder_triangles c)"
proof -
  have "gen_cylinder_write_intern outf c
      = outf @ concat (map (\<lambda>i. mesh_lines (cyl_slice c i)) [0..<unat (Cylinder.slices c)])"
    unfolding gen_cylinder_write_intern_def Let_def
  proof (rule for_lt_append_unat [where g = "\<lambda>i. mesh_lines (cyl_slice c i)"], goal_cases)
    case (1 i s)
    have inner: "for_lt 0 (Cylinder.stacks c) (\<lambda>j outf. gen_rectangle_write_nodivs_intern outf (R j)) t
        = t @ concat (map (\<lambda>j. mesh_lines (split_quad (cyl_side c (unat i) j))) [0..<unat (Cylinder.stacks c)])"
      if "\<And>j. j < Cylinder.stacks c \<Longrightarrow> R j = cyl_side c (unat i) (unat j)" for R t
      by (rule for_lt_append_unat) (simp add: rectangle_write_nodivs that)
    show ?case
      apply (subst inner)
      subgoal for j
        using unat_inc_lt[of j "Cylinder.stacks c"]
        by (simp add: cyl_side_def cyl_ring_def add_P_def Point_def Rectangle_def Let_def)
      apply (simp add: triangle_write cyl_slice_def cyl_base_def cyl_top_def cyl_ring_def Let_def
          mesh_lines_append mesh_lines_concat mesh_lines_Cons mesh_lines_Nil comp_def)
      done
  qed
  then show ?thesis by (simp add: cylinder_triangles_def mesh_lines_concat comp_def)
qed

lemma length_cylinder_triangles:
  "length (cylinder_triangles c) = unat (Cylinder.slices c) * (2 * unat (Cylinder.stacks c) + 2)"
proof -
  have "length (cyl_slice c i) = 2 * unat (Cylinder.stacks c) + 2" for i
    by (simp add: cyl_slice_def length_concat_const[where n = 2] split_quad_def)
  then show ?thesis
    by (simp add: cylinder_triangles_def length_concat_const)
qed

text \<open>
  C7. For every cylinder, \<^verbatim>\<open>gen_cylinder_write\<close> writes the header and then, slice
  by slice, the base fan triangle (ring point, centre, next ring point), the side
  quadrilaterals of the stacks, each split into two triangles, and the top fan
  triangle (centre, ring point, next ring point): \<open>2 \<cdot> stacks + 2\<close> triangles per
  slice. For \<open>slices = 4\<close>, \<open>stacks = 1\<close>, \<open>rad = 1\<close>, \<open>height = 2\<close> the file
  holds exactly 16 triangles.
\<close>

theorem gen_cylinder_write_slices:
  "gen_cylinder_write outf c
     = outf @ Text (''cylinder'' @ [newline]) # mesh_lines (cylinder_triangles c)
   \<and> length (cylinder_triangles c) = unat (Cylinder.slices c) * (2 * unat (Cylinder.stacks c) + 2)
   \<and> length (triangles_of (gen_cylinder_write []
        \<lparr>Cylinder.rad = 1, height = 2, slices = 4, stacks = 1\<rparr>)) = 16"
  by (simp add: gen_cylinder_write_def cylinder_intern length_cylinder_triangles triangles_of_mesh)


section \<open>The cone\<close>

lemma unat_stacks_minus_1: "1 \<le> (n::unsigned) \<Longrightarrow> unat (n - 1) = unat n - 1"
  by (simp add: unat_sub)

lemma cone_intern:
  assumes st: "1 \<le> Cone.stacks c"
  shows "gen_cone_write_intern outf c = outf @ mesh_lines (cone_triangles c)"
proof -
  have "gen_cone_write_intern outf c
      = outf @ concat (map (\<lambda>i. mesh_lines (cone_slice c i)) [0..<unat (Cone.slices c)])"
    unfolding gen_cone_write_intern_def Let_def
  proof (rule for_lt_append_unat [where g = "\<lambda>i. mesh_lines (cone_slice c i)"], goal_cases)
    case (1 i s)
    have inner: "for_lt 0 (Cone.stacks c - 1) (\<lambda>j outf. gen_rectangle_write_nodivs_intern outf (R j)) t
        = t @ concat (map (\<lambda>j. mesh_lines (split_quad (cone_side c (unat i) j))) [0..<unat (Cone.stacks c) - 1])"
      if "\<And>j. R j = cone_side c (unat i) (unat j)" for R t
      using for_lt_append_unat [of "Cone.stacks c - 1"
          "\<lambda>j outf. gen_rectangle_write_nodivs_intern outf (R j)"
          "\<lambda>j. mesh_lines (split_quad (cone_side c (unat i) j))" t]
      by (simp add: rectangle_write_nodivs that unat_stacks_minus_1 st)
    show ?case
      apply (subst inner)
      subgoal for j
        by (simp add: cone_side_def cone_ring_def Let_def)
      apply (simp add: triangle_write cone_slice_def cone_tip_def cone_base_def cone_ring_def Let_def
          mesh_lines_append mesh_lines_concat mesh_lines_Cons mesh_lines_Nil comp_def)
      done
  qed
  then show ?thesis by (simp add: cone_triangles_def mesh_lines_concat comp_def)
qed

lemma length_cone_triangles:
  assumes st: "1 \<le> Cone.stacks c"
  shows "length (cone_triangles c) = 2 * unat (Cone.slices c) * unat (Cone.stacks c)"
proof -
  have "1 \<le> unat (Cone.stacks c)" using st by (simp add: word_le_nat_alt)
  then have "length (cone_slice c i) = 2 * unat (Cone.stacks c)" for i
    by (simp add: cone_slice_def length_concat_const[where n = 2] split_quad_def algebra_simps)
  then show ?thesis
    by (simp add: cone_triangles_def length_concat_const)
qed

text \<open>
  C6. For every cone with at least 3 slices and at least 1 stack,
  \<^verbatim>\<open>gen_cone_write\<close> writes the header and then, slice by slice, the tip triangle
  (apex \<open>(0, height, 0)\<close>, ring of radius \<open>rad / stacks\<close> at height
  \<open>height \<cdot> (stacks - 1) / stacks\<close>), the base fan triangle at \<open>y = 0\<close>, and
  \<open>stacks - 1\<close> side quadrilaterals, the one of stack \<open>j\<close> with radius
  \<open>rad \<cdot> (stacks - j) / stacks\<close> and height \<open>height \<cdot> j / stacks\<close> at its lower
  edge, \<open>rad \<cdot> (stacks - j - 1) / stacks\<close> and \<open>height \<cdot> (j + 1) / stacks\<close> at its
  upper edge.
\<close>

theorem gen_cone_write_slices:
  assumes "3 \<le> Cone.slices c" and "1 \<le> Cone.stacks c"
  shows "gen_cone_write outf c = outf @ Text (''cone'' @ [newline]) # mesh_lines (cone_triangles c)
    \<and> length (cone_triangles c) = 2 * unat (Cone.slices c) * unat (Cone.stacks c)"
  using assms by (simp add: gen_cone_write_def cone_intern length_cone_triangles)

theorem gen_cone_write_slices_witness:
  "(3::unsigned) \<le> 3 \<and> (1::unsigned) \<le> 2
   \<and> gen_cone_write [] \<lparr>Cone.rad = 1, height = 2, slices = 3, stacks = 2\<rparr>
      = Text (''cone'' @ [newline])
        # mesh_lines (cone_triangles \<lparr>Cone.rad = 1, height = 2, slices = 3, stacks = 2\<rparr>)
   \<and> length (cone_triangles \<lparr>Cone.rad = 1, height = 2, slices = 3, stacks = 2\<rparr>) = 12"
  using gen_cone_write_slices [of "\<lparr>Cone.rad = 1, height = 2, slices = 3, stacks = 2\<rparr>" "[]"]
  by simp


section \<open>The subdivided rectangle\<close>

lemma of_nat_le_unat:
  "k \<le> unat (n::unsigned) \<Longrightarrow> (word_of_nat k :: unsigned) \<le> n \<and> unat (word_of_nat k :: unsigned) = k"
proof -
  assume k: "k \<le> unat n"
  then have u: "unat (word_of_nat k :: unsigned) = k" by (rule le_unat_uoi)
  with k show ?thesis by (simp add: word_le_nat_alt)
qed

lemma for_le_append_unat:
  assumes "n \<noteq> - 1"
    and "\<And>i s. i0 \<le> i \<Longrightarrow> i \<le> n \<Longrightarrow> body i s = Some (s @ g (unat i))"
  shows "for_le i0 n body s = Some (s @ concat (map g [unat i0..<Suc (unat n)]))"
proof (rule for_le_append [OF assms(1)])
  fix k s assume k: "unat i0 \<le> k" "k \<le> unat n"
  then have "(word_of_nat k :: unsigned) \<le> n" "unat (word_of_nat k :: unsigned) = k"
    by (simp_all add: of_nat_le_unat)
  moreover from this k have "i0 \<le> (word_of_nat k :: unsigned)" by (simp add: word_le_nat_alt)
  ultimately show "body (word_of_nat k) s = Some (s @ g k)"
    using assms(2)[of "word_of_nat k" s] by simp
qed

lemma unat_minus_1: "1 \<le> (n::unsigned) \<Longrightarrow> unat (n - 1) = unat n - 1"
  by (simp add: unat_sub)

lemma rectangle_intern:
  assumes n: "ndivs \<noteq> - 1"
  shows "gen_rectangle_write_intern outf rect ndivs
    = Some (outf @ mesh_lines (rectangle_triangles rect (unat ndivs)))"
proof -
  have inner: "for_le 1 ndivs (\<lambda>j outf. Some (gen_rectangle_write_nodivs_intern outf (R j))) t
      = Some (t @ concat (map (\<lambda>j. mesh_lines (split_quad (rect_cell rect (unat ndivs) i j))) [1..<Suc (unat ndivs)]))"
      if "\<And>j. 1 \<le> j \<Longrightarrow> R j = rect_cell rect (unat ndivs) i (unat j)" for R t i
    using for_le_append_unat [OF n, of 1 "\<lambda>j outf. Some (gen_rectangle_write_nodivs_intern outf (R j))"
        "\<lambda>j. mesh_lines (split_quad (rect_cell rect (unat ndivs) i j))" t]
    by (simp add: rectangle_write_nodivs that)
  have "gen_rectangle_write_intern outf rect ndivs
      = Some (outf @ concat (map (\<lambda>i. concat (map (\<lambda>j. mesh_lines (split_quad (rect_cell rect (unat ndivs) i j))) [1..<Suc (unat ndivs)])) [unat (1::unsigned)..<Suc (unat ndivs)]))"
    unfolding gen_rectangle_write_intern_def Let_def
  proof (rule for_le_append_unat [OF n], goal_cases)
    case (1 i s)
    show ?case
      apply (subst inner [where i = "unat i"])
      subgoal for j
        using 1(1) by (simp add: rect_cell_def rect_corner_def Let_def unat_minus_1)
      apply simp
      done
  qed
  then show ?thesis
    by (simp add: rectangle_triangles_def mesh_lines_concat comp_def)
qed

lemma length_rectangle_triangles: "length (rectangle_triangles rect n) = 2 * n * n"
proof -
  have row: "length (concat (map (\<lambda>j. split_quad (rect_cell rect n i j)) [1..<Suc n])) = n * 2" for i
  proof -
    have "length (concat (map (\<lambda>j. split_quad (rect_cell rect n i j)) [1..<Suc n]))
        = length [1..<Suc n] * 2"
      by (rule length_concat_const) (simp add: split_quad_def)
    then show ?thesis by simp
  qed
  have "length (rectangle_triangles rect n) = length [1..<Suc n] * (n * 2)"
    unfolding rectangle_triangles_def by (rule length_concat_const) (rule row)
  then show ?thesis by simp
qed

lemma rectangle_write_max: "gen_rectangle_write outf rect (- 1) = None"
  by (simp add: gen_rectangle_write_def gen_rectangle_write_intern_def Let_def for_le_max)

lemma rectangle_write_zero:
  "gen_rectangle_write outf rect 0 = Some (outf @ [Text (''rectangle'' @ [newline])])"
  by (simp add: gen_rectangle_write_def gen_rectangle_write_intern_def Let_def for_le.simps)


lemma max_unsigned: "(4294967295 :: unsigned) = - 1"
  by simp

lemma below_max_unsigned: "n < (4294967295 :: unsigned) \<Longrightarrow> n \<noteq> - 1"
  by auto

text \<open>
  C5, for the counts the loop counter can pass. For every rectangle with four distinct
  corners and every division count \<open>n\<close> with \<open>1 \<le> n \<le> 4294967294\<close>,
  \<^verbatim>\<open>gen_rectangle_write\<close> returns, having written the header and the triangles of the
  \<open>n\<close> by \<open>n\<close> cells in row-major order (\<open>i\<close> outer, \<open>j\<close> inner), each cell split
  into \<open>(P1, P2, P3)\<close> and \<open>(P3, P2, P4)\<close>: \<open>2 \<cdot> n \<cdot> n\<close> triangles.
\<close>

theorem gen_rectangle_write_grid:
  assumes "distinct [Rectangle.P1 rect, Rectangle.P2 rect, Rectangle.P3 rect, Rectangle.P4 rect]"
    and "1 \<le> n" and "n < 4294967295"
  shows "gen_rectangle_write outf rect n
      = Some (outf @ Text (''rectangle'' @ [newline]) # mesh_lines (rectangle_triangles rect (unat n)))
    \<and> length (rectangle_triangles rect (unat n)) = 2 * unat n * unat n"
  using assms
  by (simp add: gen_rectangle_write_def rectangle_intern below_max_unsigned length_rectangle_triangles)

theorem gen_rectangle_write_grid_witness:
  "distinct [Rectangle.P1 (gen_rectangle_from_wd 2 2), Rectangle.P2 (gen_rectangle_from_wd 2 2),
             Rectangle.P3 (gen_rectangle_from_wd 2 2), Rectangle.P4 (gen_rectangle_from_wd 2 2)]
   \<and> (1::unsigned) \<le> 2 \<and> (2::unsigned) < 4294967295
   \<and> gen_rectangle_write [] (gen_rectangle_from_wd 2 2) 2
      = Some (Text (''rectangle'' @ [newline]) # mesh_lines (rectangle_triangles (gen_rectangle_from_wd 2 2) 2))
   \<and> length (rectangle_triangles (gen_rectangle_from_wd 2 2) 2) = 8"
  using gen_rectangle_write_grid [of "gen_rectangle_from_wd 2 2" 2 "[]"]
  by (simp add: gen_rectangle_from_wd_def Rectangle_def Point_def)

text \<open>
  At the largest division count, \<open>n = 4294967295\<close>, the inner loop never ends
  (\<open>j <= ndivs\<close> holds for every \<open>j\<close>, and \<open>j++\<close> wraps from 4294967295 to 0):
  the call does not return, and no count of triangles is what it emits.
\<close>

theorem gen_rectangle_write_max_never_returns:
  "gen_rectangle_write [] (gen_rectangle_from_wd 2 2) 4294967295 = None"
  by (simp only: max_unsigned rectangle_write_max)

text \<open>
  C8, as the code has it. With \<open>n = 0\<close> the subdivider neither rejects the call nor
  clamps the count: it returns normally, having written the header line and no
  triangle, which is not its output for \<open>n = 1\<close>.
\<close>

theorem gen_rectangle_write_zero_divisions:
  "gen_rectangle_write outf rect 0 = Some (outf @ [Text (''rectangle'' @ [newline])])
   \<and> map_option triangles_of (gen_rectangle_write [] rect 0) = Some []
   \<and> gen_rectangle_write outf rect 0 \<noteq> gen_rectangle_write outf rect 1"
proof -
  have one: "gen_rectangle_write outf rect 1
      = Some (outf @ Text (''rectangle'' @ [newline]) # mesh_lines (rectangle_triangles rect 1))"
    by (simp add: gen_rectangle_write_def rectangle_intern)
  have "mesh_lines (rectangle_triangles rect 1) \<noteq> []"
    by (simp add: rectangle_triangles_def split_quad_def mesh_lines_Cons tri_lines_def)
  with one show ?thesis
    by (simp add: rectangle_write_zero triangles_of_def)
qed

theorem gen_rectangle_write_zero_counterexample:
  "gen_rectangle_write [] (gen_rectangle_from_wd 2 2) 0 = Some [Text (''rectangle'' @ [newline])]
   \<and> gen_rectangle_write [] (gen_rectangle_from_wd 2 2) 0
      \<noteq> gen_rectangle_write [] (gen_rectangle_from_wd 2 2) 1"
proof -
  have one: "gen_rectangle_write [] (gen_rectangle_from_wd 2 2) 1
      = Some (Text (''rectangle'' @ [newline])
              # mesh_lines (rectangle_triangles (gen_rectangle_from_wd 2 2) 1))"
    by (simp add: gen_rectangle_write_def rectangle_intern)
  have "mesh_lines (rectangle_triangles (gen_rectangle_from_wd 2 2) 1) \<noteq> []"
    by (simp add: rectangle_triangles_def split_quad_def mesh_lines_Cons tri_lines_def)
  with one show ?thesis
    by (simp add: rectangle_write_zero)
qed


section \<open>The sphere: grid and indices\<close>

lemma fold_option_append2:
  "(\<And>k u v. k \<in> set ks \<Longrightarrow> f k (u, v) = Some (u @ g k, v @ h k)) \<Longrightarrow>
   fold_option f ks (u, v) = Some (u @ concat (map g ks), v @ concat (map h ks))"
  by (induction ks arbitrary: u v) simp_all

lemma for_le_append2:
  assumes "n \<noteq> - 1"
    and "\<And>i u v. i \<le> n \<Longrightarrow> body i (u, v) = Some (u @ g (unat i), v @ h (unat i))"
  shows "for_le 0 n body (u, v)
    = Some (u @ concat (map g [0..<Suc (unat n)]), v @ concat (map h [0..<Suc (unat n)]))"
proof -
  have "fold_option (\<lambda>k. body (of_nat k)) [0..<Suc (unat n)] (u, v)
      = Some (u @ concat (map g [0..<Suc (unat n)]), v @ concat (map h [0..<Suc (unat n)]))"
  proof (rule fold_option_append2)
    fix k u v assume "k \<in> set [0..<Suc (unat n)]"
    then have "k \<le> unat n" by auto
    then have "(word_of_nat k :: unsigned) \<le> n" "unat (word_of_nat k :: unsigned) = k"
      by (simp_all add: of_nat_le_unat)
    then show "body (word_of_nat k) (u, v) = Some (u @ g k, v @ h k)"
      using assms(2)[of "word_of_nat k" u v] by simp
  qed
  then show ?thesis by (simp add: for_le_fold [OF assms(1)])
qed

lemma sphere_fill_grid:
  assumes S: "Sphere.slices sph \<noteq> - 1" and T: "Sphere.stacks sph \<noteq> - 1"
  shows "sphere_fill sph = Some (sphere_grid sph, map normalize_P (sphere_grid sph))"
proof -
  have "sphere_fill sph
      = Some ([] @ concat (map (\<lambda>i. map (\<lambda>j. sphere_vertex sph i j) [0..<Suc (unat (Sphere.slices sph))]) [0..<Suc (unat (Sphere.stacks sph))]),
              [] @ concat (map (\<lambda>i. map (\<lambda>j. normalize_P (sphere_vertex sph i j)) [0..<Suc (unat (Sphere.slices sph))]) [0..<Suc (unat (Sphere.stacks sph))]))"
    unfolding sphere_fill_def Let_def
  proof (rule for_le_append2 [OF T], goal_cases)
    case (1 i u v)
    have "for_le 0 (Sphere.slices sph) (\<lambda>j p. Some (fst p @ [V j], snd p @ [normalize_P (V j)])) (u, v)
        = Some (u @ concat (map (\<lambda>j. [sphere_vertex sph (unat i) j]) [0..<Suc (unat (Sphere.slices sph))]),
                v @ concat (map (\<lambda>j. [normalize_P (sphere_vertex sph (unat i) j)]) [0..<Suc (unat (Sphere.slices sph))]))"
      if "\<And>j. V j = sphere_vertex sph (unat i) (unat j)" for V
      by (rule for_le_append2 [OF S]) (simp add: that)
    note inner = this
    show ?case
      apply (simp only: split_def fst_conv snd_conv)
      apply (subst inner)
       apply (simp add: sphere_vertex_def Let_def)
      apply (simp add: concat_map_singleton del: upt_Suc)
      done
  qed
  then show ?thesis
    by (simp add: sphere_grid_def map_concat comp_def del: upt_Suc)
qed

lemma sphere_fill_never_returns:
  assumes "Sphere.slices sph = - 1 \<or> Sphere.stacks sph = - 1"
  shows "sphere_fill sph = None"
proof (cases "Sphere.stacks sph = - 1")
  case True
  then show ?thesis by (simp add: sphere_fill_def for_le_max)
next
  case False
  with assms have S: "Sphere.slices sph = - 1" by simp
  show ?thesis
    unfolding sphere_fill_def
    by (subst for_le.simps) (simp add: S for_le_max split_def)
qed

lemma length_concat_rows:
  "(\<And>r. r \<in> set rows \<Longrightarrow> length r = n) \<Longrightarrow> length (concat rows) = length rows * n"
  by (induction rows) simp_all

lemma nth_concat_rows:
  "(\<And>r. r \<in> set rows \<Longrightarrow> length r = n) \<Longrightarrow> i < length rows \<Longrightarrow> j < n \<Longrightarrow>
   concat rows ! (i * n + j) = rows ! i ! j"
proof (induction rows arbitrary: i)
  case Nil
  then show ?case by simp
next
  case (Cons r rows)
  show ?case
  proof (cases i)
    case 0
    with Cons.prems show ?thesis by (simp add: nth_append)
  next
    case (Suc i')
    then have "concat (r # rows) ! (i * n + j) = concat rows ! (i' * n + j)"
      using Cons.prems(1)[of r] by (simp add: nth_append)
    also have "\<dots> = rows ! i' ! j"
      using Cons.prems Suc by (intro Cons.IH) simp_all
    finally show ?thesis using Suc by simp
  qed
qed

lemma length_sphere_grid:
  "length (sphere_grid sph) = (unat (Sphere.stacks sph) + 1) * (unat (Sphere.slices sph) + 1)"
proof -
  have "length (sphere_grid sph)
      = length (map (\<lambda>i. map (\<lambda>j. sphere_vertex sph i j) [0..<Suc (unat (Sphere.slices sph))]) [0..<Suc (unat (Sphere.stacks sph))])
        * Suc (unat (Sphere.slices sph))"
    unfolding sphere_grid_def by (rule length_concat_rows) auto
  then show ?thesis by simp
qed

lemma nth_sphere_grid:
  assumes "i \<le> unat (Sphere.stacks sph)" and "j \<le> unat (Sphere.slices sph)"
  shows "sphere_grid sph ! (i * (unat (Sphere.slices sph) + 1) + j) = sphere_vertex sph i j"
proof -
  have "sphere_grid sph ! (i * Suc (unat (Sphere.slices sph)) + j)
      = map (\<lambda>i. map (\<lambda>j. sphere_vertex sph i j) [0..<Suc (unat (Sphere.slices sph))]) [0..<Suc (unat (Sphere.stacks sph))] ! i ! j"
    unfolding sphere_grid_def using assms by (intro nth_concat_rows) auto
  also have "\<dots> = sphere_vertex sph i j"
    using assms by (simp del: upt_Suc)
  finally show ?thesis by simp
qed


lemma fold_outcome_Undefined:
  "k \<in> set ks \<Longrightarrow> (\<And>s. f k s = Undefined) \<Longrightarrow> fold_outcome f ks s = Undefined"
proof (induction ks arbitrary: s)
  case Nil
  then show ?case by simp
next
  case (Cons a ks)
  show ?case
  proof (cases "f a s")
    case Undefined
    then show ?thesis by (simp add: obind_def)
  next
    case (Returns s')
    show ?thesis
    proof (cases "k = a")
      case True
      with Cons.prems(2)[of s] Returns show ?thesis by simp
    next
      case False
      with Cons.prems have "k \<in> set ks" by simp
      then have "fold_outcome f ks s' = Undefined" using Cons.prems(2) by (rule Cons.IH)
      with Returns show ?thesis by (simp add: obind_def)
    qed
  qed
qed

lemma for_lt_chk_Undefined:
  assumes "i < n" and "\<And>s. body i s = Undefined"
  shows "for_lt_chk 0 n body s = Undefined"
proof -
  have "unat i \<in> set [unat (0::unsigned)..<unat n]"
    using assms(1) by (simp add: word_less_nat_alt)
  moreover have "body (of_nat (unat i)) s' = Undefined" for s'
    using assms(2) by simp
  ultimately have "fold_outcome (\<lambda>k. body (of_nat k)) [unat (0::unsigned)..<unat n] s = Undefined"
    by (rule fold_outcome_Undefined)
  then show ?thesis by (simp only: for_lt_chk_fold)
qed

lemma for_lt_chk_append_word:
  assumes "\<And>i s. i < n \<Longrightarrow> body i s = Returns (s @ g i)"
  shows "for_lt_chk 0 n body s = Returns (s @ concat (map (\<lambda>k. g (of_nat k)) [0..<unat n]))"
proof (rule for_lt_chk_append)
  fix k s assume "k < unat n"
  then have "(word_of_nat k :: unsigned) < n" by (simp add: of_nat_lt_unat)
  then show "body (word_of_nat k) s = Returns (s @ g (word_of_nat k))" by (rule assms)
qed

lemma sphere_draw_Undefined:
  assumes "i < len" and "\<not> sphere_in_bounds sph (length vs) i"
  shows "sphere_draw sph vs len outf = Undefined"
  unfolding sphere_draw_def
  using assms(1)
proof (rule for_lt_chk_Undefined)
  fix s
  show "obind (vec_at vs (unat i)) (\<lambda>P1.
         obind (vec_at vs (unat (i + Sphere.slices sph + 1))) (\<lambda>P2.
         obind (vec_at vs (unat (i + Sphere.slices sph))) (\<lambda>P3.
         obind (vec_at vs (unat (i + 1))) (\<lambda>P4.
           let outf = gen_triangle_write_intern s (Triangle P1 P2 P3)
           in Returns (gen_triangle_write_intern outf (Triangle P2 P1 P4)))))) = Undefined"
    using assms(2) by (auto simp: sphere_in_bounds_def vec_at_def obind_def)
qed

lemma sphere_draw_Returns:
  assumes "\<And>i. i < len \<Longrightarrow> sphere_in_bounds sph (length vs) i"
  shows "sphere_draw sph vs len outf
    = Returns (outf @ mesh_lines (concat (map (\<lambda>k. sphere_step sph vs (of_nat k)) [0..<unat len])))"
proof -
  have "sphere_draw sph vs len outf
      = Returns (outf @ concat (map (\<lambda>k. mesh_lines (sphere_step sph vs (of_nat k))) [0..<unat len]))"
    unfolding sphere_draw_def
  proof (rule for_lt_chk_append_word, goal_cases)
    case (1 i s)
    from assms[OF 1] show ?case
      by (simp add: sphere_in_bounds_def vec_at_def obind_def triangle_write sphere_step_def
          mesh_lines_Cons mesh_lines_Nil)
  qed
  then show ?thesis by (simp add: mesh_lines_concat comp_def)
qed

lemma unat_add_le: "unat (a + b) \<le> unat a + unat (b::unsigned)"
  by (simp add: unat_word_ariths)

lemma unat_mult_le: "unat (a * b) \<le> unat a * unat (b::unsigned)"
  by (simp add: unat_word_ariths)

text \<open>Every index of the walk lies in the grid when there are at most as many slices as stacks.\<close>

lemma sphere_walk_in_bounds:
  assumes S: "1 \<le> Sphere.slices sph" and ST: "Sphere.slices sph \<le> Sphere.stacks sph"
    and i: "i < Sphere.slices sph * Sphere.stacks sph + Sphere.slices sph"
  shows "sphere_in_bounds sph ((unat (Sphere.stacks sph) + 1) * (unat (Sphere.slices sph) + 1)) i"
proof -
  define s t p where "s = unat (Sphere.slices sph)" and "t = unat (Sphere.stacks sph)" and "p = s * t"
  have s1: "1 \<le> s" and st: "s \<le> t"
    using S ST by (simp_all add: s_def t_def word_le_nat_alt)
  have "unat (Sphere.slices sph * Sphere.stacks sph + Sphere.slices sph)
      \<le> unat (Sphere.slices sph * Sphere.stacks sph) + s"
    unfolding s_def by (rule unat_add_le)
  also have "\<dots> \<le> p + s"
    using unat_mult_le[of "Sphere.slices sph" "Sphere.stacks sph"] by (simp add: s_def t_def p_def)
  finally have "unat i < p + s"
    using i by (simp add: word_less_nat_alt)
  moreover have "unat (i + Sphere.slices sph + 1) \<le> unat i + s + 1"
    using unat_add_le[of "i + Sphere.slices sph" 1] unat_add_le[of i "Sphere.slices sph"]
    by (simp add: s_def)
  moreover have "unat (i + Sphere.slices sph) \<le> unat i + s"
    using unat_add_le[of i "Sphere.slices sph"] by (simp add: s_def)
  moreover have "unat (i + 1) \<le> unat i + 1"
    using unat_add_le[of i 1] by simp
  moreover have "(t + 1) * (s + 1) = p + t + s + 1"
    by (simp add: p_def algebra_simps)
  ultimately show ?thesis
    using s1 st unfolding sphere_in_bounds_def s_def[symmetric] t_def[symmetric] by simp
qed


lemma gen_sphere_write_unfold:
  "gen_sphere_write outf sph =
     Option.bind (sphere_fill sph) (\<lambda>(verts, normals).
       Some (obind (sphere_draw sph verts (Sphere.slices sph * Sphere.stacks sph + Sphere.slices sph)
                      (outf @ [Text (''sphere'' @ [newline])]))
               (\<lambda>outf. sphere_draw sph normals
                         (Sphere.slices sph * Sphere.stacks sph + Sphere.slices sph)
                         (outf @ [Text str_normals]))))"
  by (simp add: gen_sphere_write_def gen_sphere_write_intern_def Let_def)

lemma sphere_fill_Some:
  assumes "sphere_fill sph = Some (verts, normals)"
  shows "verts = sphere_grid sph \<and> normals = map normalize_P (sphere_grid sph)"
proof -
  have "Sphere.slices sph \<noteq> - 1 \<and> Sphere.stacks sph \<noteq> - 1"
    using assms sphere_fill_never_returns[of sph] by auto
  then show ?thesis using assms by (auto simp: sphere_fill_grid)
qed

text \<open>
  C10. For every sphere with \<open>1 \<le> slices \<le> stacks\<close>, every index that the two
  drawing loops use (\<open>i\<close>, \<open>i + slices + 1\<close>, \<open>i + slices\<close>, \<open>i + 1\<close> for
  \<open>i < slices \<cdot> stacks + slices\<close>) is smaller than the number
  \<open>(slices + 1) \<cdot> (stacks + 1)\<close> of vertices, and of normals, that the first loops
  stored: no run of \<^verbatim>\<open>gen_sphere_write\<close> reads a vector out of range.
\<close>

theorem sphere_indices_in_bounds:
  assumes "1 \<le> Sphere.slices sph" and "Sphere.slices sph \<le> Sphere.stacks sph"
    and "sphere_fill sph = Some (verts, normals)"
    and "i < Sphere.slices sph * Sphere.stacks sph + Sphere.slices sph"
  shows "length verts = (unat (Sphere.slices sph) + 1) * (unat (Sphere.stacks sph) + 1)
    \<and> length normals = (unat (Sphere.slices sph) + 1) * (unat (Sphere.stacks sph) + 1)
    \<and> sphere_in_bounds sph (length verts) i
    \<and> sphere_in_bounds sph (length normals) i
    \<and> gen_sphere_write outf sph \<noteq> Some Undefined"
proof -
  let ?L = "(unat (Sphere.stacks sph) + 1) * (unat (Sphere.slices sph) + 1)"
  let ?len = "Sphere.slices sph * Sphere.stacks sph + Sphere.slices sph"
  from assms(3) have vn: "verts = sphere_grid sph" "normals = map normalize_P (sphere_grid sph)"
    by (simp_all add: sphere_fill_Some)
  then have len: "length verts = ?L" "length normals = ?L"
    by (simp_all add: length_sphere_grid)
  have inb: "sphere_in_bounds sph ?L k" if "k < ?len" for k
    using assms(1,2) that by (rule sphere_walk_in_bounds)
  have d1: "sphere_draw sph verts ?len s
      = Returns (s @ mesh_lines (concat (map (\<lambda>k. sphere_step sph verts (of_nat k)) [0..<unat ?len])))" for s
    by (rule sphere_draw_Returns) (simp only: len inb)
  have d2: "sphere_draw sph normals ?len s
      = Returns (s @ mesh_lines (concat (map (\<lambda>k. sphere_step sph normals (of_nat k)) [0..<unat ?len])))" for s
    by (rule sphere_draw_Returns) (simp only: len inb)
  have "gen_sphere_write outf sph \<noteq> Some Undefined"
    by (simp add: gen_sphere_write_unfold assms(3) d1 d2 obind_def)
  with len inb[OF assms(4)] show ?thesis by (simp add: mult.commute)
qed

lemma sphere_3_3:
  "sphere_fill \<lparr>Sphere.rad = 1, slices = 3, stacks = 3\<rparr>
     = Some (sphere_grid \<lparr>Sphere.rad = 1, slices = 3, stacks = 3\<rparr>,
             map normalize_P (sphere_grid \<lparr>Sphere.rad = 1, slices = 3, stacks = 3\<rparr>))"
  by (rule sphere_fill_grid) simp_all

theorem sphere_indices_in_bounds_witness:
  "(1::unsigned) \<le> 3 \<and> (3::unsigned) \<le> 3
   \<and> sphere_fill \<lparr>Sphere.rad = 1, slices = 3, stacks = 3\<rparr>
       = Some (sphere_grid \<lparr>Sphere.rad = 1, slices = 3, stacks = 3\<rparr>,
               map normalize_P (sphere_grid \<lparr>Sphere.rad = 1, slices = 3, stacks = 3\<rparr>))
   \<and> (11::unsigned) < 3 * 3 + 3
   \<and> length (sphere_grid \<lparr>Sphere.rad = 1, slices = 3, stacks = 3\<rparr>) = 16
   \<and> sphere_in_bounds \<lparr>Sphere.rad = 1, slices = 3, stacks = 3\<rparr>
        (length (sphere_grid \<lparr>Sphere.rad = 1, slices = 3, stacks = 3\<rparr>)) 11
   \<and> gen_sphere_write [] \<lparr>Sphere.rad = 1, slices = 3, stacks = 3\<rparr> \<noteq> Some Undefined"
  using sphere_indices_in_bounds [of "\<lparr>Sphere.rad = 1, slices = 3, stacks = 3\<rparr>"
      "sphere_grid \<lparr>Sphere.rad = 1, slices = 3, stacks = 3\<rparr>"
      "map normalize_P (sphere_grid \<lparr>Sphere.rad = 1, slices = 3, stacks = 3\<rparr>)" 11 "[]"]
    sphere_3_3
  by auto

text \<open>
  C3 fails where there are more slices than stacks. The claim promises the triangles
  \<open>(verts[i], verts[i + S + 1], verts[i + S])\<close> for every \<open>S \<ge> 3\<close>, \<open>T \<ge> 1\<close>; with 3
  slices and 1 stack the grid has 8 vertices and the drawing loop runs \<open>i\<close> up to
  5: at \<open>i = 4\<close> it reads \<^verbatim>\<open>verts[8]\<close>, out of range.
\<close>

theorem gen_sphere_write_3_slices_1_stack:
  "gen_sphere_write [] \<lparr>Sphere.rad = 1, slices = 3, stacks = 1\<rparr> = Some Undefined"
proof -
  let ?sph = "\<lparr>Sphere.rad = 1, slices = 3, stacks = 1\<rparr>"
  have fill: "sphere_fill ?sph = Some (sphere_grid ?sph, map normalize_P (sphere_grid ?sph))"
    by (rule sphere_fill_grid) simp_all
  have len: "length (sphere_grid ?sph) = 8"
    by (simp add: length_sphere_grid)
  have "sphere_draw ?sph (sphere_grid ?sph) (3 * 1 + 3) s = Undefined" for s
    by (rule sphere_draw_Undefined [where i = 4]) (simp_all add: sphere_in_bounds_def len)
  then show ?thesis
    by (simp add: gen_sphere_write_unfold fill obind_def)
qed


text \<open>
  C4, for the counts the loop counters can pass: for \<open>3 \<le> slices \<le> 4294967294\<close>
  and \<open>1 \<le> stacks \<le> 4294967294\<close> the first loops return with
  \<open>(stacks + 1) \<cdot> (slices + 1)\<close> vertices in row-major order, the longitude
  varying fastest: the vertex of stack \<open>i\<close> and slice \<open>j\<close> is stored at
  \<open>i \<cdot> (slices + 1) + j\<close>, and at the same index of \<^verbatim>\<open>normals\<close> the
  normalized vertex.
\<close>

theorem sphere_fill_row_major:
  assumes "3 \<le> Sphere.slices sph" and "1 \<le> Sphere.stacks sph"
    and "Sphere.slices sph < 4294967295" and "Sphere.stacks sph < 4294967295"
    and "i \<le> unat (Sphere.stacks sph)" and "j \<le> unat (Sphere.slices sph)"
  shows "sphere_fill sph = Some (sphere_grid sph, map normalize_P (sphere_grid sph))
    \<and> length (sphere_grid sph) = (unat (Sphere.stacks sph) + 1) * (unat (Sphere.slices sph) + 1)
    \<and> sphere_grid sph ! (i * (unat (Sphere.slices sph) + 1) + j) = sphere_vertex sph i j
    \<and> map normalize_P (sphere_grid sph) ! (i * (unat (Sphere.slices sph) + 1) + j)
        = normalize_P (sphere_vertex sph i j)"
proof -
  have "i * (unat (Sphere.slices sph) + 1) + j
      < (unat (Sphere.stacks sph) + 1) * (unat (Sphere.slices sph) + 1)"
  proof -
    have "i * (unat (Sphere.slices sph) + 1) + j < (i + 1) * (unat (Sphere.slices sph) + 1)"
      using assms(6) by simp
    also have "\<dots> \<le> (unat (Sphere.stacks sph) + 1) * (unat (Sphere.slices sph) + 1)"
      using assms(5) by (intro mult_le_mono1) simp
    finally show ?thesis .
  qed
  then have "map normalize_P (sphere_grid sph) ! (i * (unat (Sphere.slices sph) + 1) + j)
      = normalize_P (sphere_grid sph ! (i * (unat (Sphere.slices sph) + 1) + j))"
    by (intro nth_map) (simp only: length_sphere_grid)
  then show ?thesis
    using assms
    by (simp add: sphere_fill_grid below_max_unsigned length_sphere_grid
        nth_sphere_grid [simplified])
qed

theorem sphere_fill_row_major_witness:
  "(3::unsigned) \<le> 3 \<and> (1::unsigned) \<le> 3 \<and> (3::unsigned) < 4294967295
   \<and> (1::nat) \<le> unat (3::unsigned) \<and> (2::nat) \<le> unat (3::unsigned)
   \<and> sphere_fill \<lparr>Sphere.rad = 1, slices = 3, stacks = 3\<rparr>
       = Some (sphere_grid \<lparr>Sphere.rad = 1, slices = 3, stacks = 3\<rparr>,
               map normalize_P (sphere_grid \<lparr>Sphere.rad = 1, slices = 3, stacks = 3\<rparr>))
   \<and> length (sphere_grid \<lparr>Sphere.rad = 1, slices = 3, stacks = 3\<rparr>) = 16
   \<and> sphere_grid \<lparr>Sphere.rad = 1, slices = 3, stacks = 3\<rparr> ! 6
       = sphere_vertex \<lparr>Sphere.rad = 1, slices = 3, stacks = 3\<rparr> 1 2"
  using sphere_fill_row_major [of "\<lparr>Sphere.rad = 1, slices = 3, stacks = 3\<rparr>" 1 2]
  by simp

text \<open>
  At the largest stack count the condition \<open>i <= sph.stacks\<close> holds for every
  \<open>i\<close>, and at the largest slice count \<open>j <= sph.slices\<close> for every \<open>j\<close>: the
  loop never ends and the grid is never complete.
\<close>

theorem sphere_fill_max_never_returns:
  "sphere_fill \<lparr>Sphere.rad = 1, slices = 3, stacks = 4294967295\<rparr> = None
   \<and> sphere_fill \<lparr>Sphere.rad = 1, slices = 4294967295, stacks = 1\<rparr> = None
   \<and> gen_sphere_write [] \<lparr>Sphere.rad = 1, slices = 3, stacks = 4294967295\<rparr> = None"
proof -
  have "sphere_fill \<lparr>Sphere.rad = 1, slices = 3, stacks = 4294967295\<rparr> = None"
    by (rule sphere_fill_never_returns) simp
  moreover have "sphere_fill \<lparr>Sphere.rad = 1, slices = 4294967295, stacks = 1\<rparr> = None"
    by (rule sphere_fill_never_returns) simp
  ultimately show ?thesis by (simp add: gen_sphere_write_unfold)
qed

section \<open>The sphere where it is drawn in range\<close>

lemma sphere_no_overflow:
  assumes S: "1 \<le> Sphere.slices sph" and ST: "Sphere.slices sph \<le> Sphere.stacks sph"
    and fit: "(unat (Sphere.slices sph) + 1) * (unat (Sphere.stacks sph) + 1) \<le> 2 ^ 32"
  shows "unat (Sphere.slices sph * Sphere.stacks sph + Sphere.slices sph)
      = unat (Sphere.slices sph) * unat (Sphere.stacks sph) + unat (Sphere.slices sph)"
    and "k < unat (Sphere.slices sph) * unat (Sphere.stacks sph) + unat (Sphere.slices sph) \<Longrightarrow>
      sphere_step sph vs (of_nat k)
        = [Triangle (vs ! k) (vs ! (k + unat (Sphere.slices sph) + 1)) (vs ! (k + unat (Sphere.slices sph))),
           Triangle (vs ! (k + unat (Sphere.slices sph) + 1)) (vs ! k) (vs ! (k + 1))]"
    and "Sphere.slices sph \<noteq> - 1" and "Sphere.stacks sph \<noteq> - 1"
proof -
  define s t where "s = unat (Sphere.slices sph)" and "t = unat (Sphere.stacks sph)"
  have s1: "1 \<le> s" and st: "s \<le> t"
    using S ST by (simp_all add: s_def t_def word_le_nat_alt)
  have expand: "(s + 1) * (t + 1) = s * t + s + t + 1" by (simp add: algebra_simps)
  with fit have bound: "s * t + s + t + 1 \<le> 2 ^ 32" by (simp add: s_def t_def)
  then have "s * t < 2 ^ LENGTH(32)" by simp
  then have m: "unat (Sphere.slices sph * Sphere.stacks sph) = s * t"
    unfolding s_def t_def by (simp only: unat_mult_lem)
  have "s * t + s < 2 ^ LENGTH(32)" using bound by simp
  then have "unat (Sphere.slices sph * Sphere.stacks sph) + unat (Sphere.slices sph) < 2 ^ LENGTH(32)"
    by (simp add: m s_def)
  then have "unat (Sphere.slices sph * Sphere.stacks sph + Sphere.slices sph)
      = unat (Sphere.slices sph * Sphere.stacks sph) + unat (Sphere.slices sph)"
    by (simp only: unat_add_lem)
  then show "unat (Sphere.slices sph * Sphere.stacks sph + Sphere.slices sph)
      = unat (Sphere.slices sph) * unat (Sphere.stacks sph) + unat (Sphere.slices sph)"
    by (simp add: m s_def t_def)
  have "t < 4294967295" "s < 4294967295" using bound s1 st by simp_all
  then show "Sphere.slices sph \<noteq> - 1" "Sphere.stacks sph \<noteq> - 1"
    by (auto simp: s_def t_def unat_max)
  assume k: "k < unat (Sphere.slices sph) * unat (Sphere.stacks sph) + unat (Sphere.slices sph)"
  then have k': "k < s * t + s" by (simp add: s_def t_def)
  then have small: "k + s + 1 < 2 ^ 32" using bound st by simp
  then have uk: "unat (word_of_nat k :: unsigned) = k"
    by (simp add: unat_of_nat)
  have "unat (word_of_nat k :: unsigned) + unat (Sphere.slices sph) < 2 ^ LENGTH(32)"
    using small by (simp add: uk s_def)
  then have a1: "unat (word_of_nat k + Sphere.slices sph) = k + s"
    by (simp only: unat_add_lem) (simp add: uk s_def)
  have "unat (word_of_nat k + Sphere.slices sph) + unat (1::unsigned) < 2 ^ LENGTH(32)"
    using small by (simp add: a1)
  then have a2: "unat (word_of_nat k + Sphere.slices sph + 1) = k + s + 1"
    by (simp only: unat_add_lem) (simp add: a1)
  have "unat (word_of_nat k :: unsigned) + unat (1::unsigned) < 2 ^ LENGTH(32)"
    using small by (simp add: uk)
  then have a3: "unat (word_of_nat k + 1 :: unsigned) = k + 1"
    by (simp only: unat_add_lem) (simp add: uk)
  show "sphere_step sph vs (of_nat k)
        = [Triangle (vs ! k) (vs ! (k + unat (Sphere.slices sph) + 1)) (vs ! (k + unat (Sphere.slices sph))),
           Triangle (vs ! (k + unat (Sphere.slices sph) + 1)) (vs ! k) (vs ! (k + 1))]"
    by (simp add: sphere_step_def uk a1 a2 a3 s_def[symmetric])
qed

lemma length_sphere_walk: "length (sphere_walk S vs n) = 2 * n"
proof -
  have "length (sphere_walk S vs n) = length [0..<n] * 2"
    unfolding sphere_walk_def by (rule length_concat_const) simp
  then show ?thesis by simp
qed

text \<open>
  The sphere where the walk stays in the grid: for \<open>3 \<le> slices \<le> stacks\<close> and a grid of at
  most \<open>2\<^sup>3\<^sup>2\<close> vertices, \<^verbatim>\<open>gen_sphere_write\<close> returns, having written the
  header, the \<open>2 \<cdot> (S \<cdot> T + S)\<close> triangles \<open>(verts[i], verts[i + S + 1], verts[i + S])\<close>
  and \<open>(verts[i + S + 1], verts[i], verts[i + 1])\<close>, the line \<open>normals\<close>, and the same
  walk over the normals.
\<close>

theorem gen_sphere_write_walk:
  assumes "3 \<le> Sphere.slices sph" and "Sphere.slices sph \<le> Sphere.stacks sph"
    and "(unat (Sphere.slices sph) + 1) * (unat (Sphere.stacks sph) + 1) \<le> 2 ^ 32"
  shows "gen_sphere_write outf sph
      = Some (Returns (outf @ Text (''sphere'' @ [newline])
            # mesh_lines (sphere_walk (unat (Sphere.slices sph)) (sphere_grid sph)
                 (unat (Sphere.slices sph) * unat (Sphere.stacks sph) + unat (Sphere.slices sph)))
            @ Text str_normals
            # mesh_lines (sphere_walk (unat (Sphere.slices sph)) (map normalize_P (sphere_grid sph))
                 (unat (Sphere.slices sph) * unat (Sphere.stacks sph) + unat (Sphere.slices sph)))))
    \<and> length (sphere_walk (unat (Sphere.slices sph)) (sphere_grid sph)
          (unat (Sphere.slices sph) * unat (Sphere.stacks sph) + unat (Sphere.slices sph)))
        = 2 * (unat (Sphere.slices sph) * unat (Sphere.stacks sph) + unat (Sphere.slices sph))
    \<and> length (sphere_walk (unat (Sphere.slices sph)) (map normalize_P (sphere_grid sph))
          (unat (Sphere.slices sph) * unat (Sphere.stacks sph) + unat (Sphere.slices sph)))
        = 2 * (unat (Sphere.slices sph) * unat (Sphere.stacks sph) + unat (Sphere.slices sph))"
proof -
  let ?S = "unat (Sphere.slices sph)" and ?T = "unat (Sphere.stacks sph)"
  let ?len = "Sphere.slices sph * Sphere.stacks sph + Sphere.slices sph"
  have S1: "1 \<le> Sphere.slices sph"
    using assms(1) by (simp add: word_le_nat_alt)
  note no = sphere_no_overflow [OF S1 assms(2,3)]
  have fill: "sphere_fill sph = Some (sphere_grid sph, map normalize_P (sphere_grid sph))"
    using no(3,4) by (rule sphere_fill_grid)
  have L: "length (sphere_grid sph) = (?T + 1) * (?S + 1)"
    by (rule length_sphere_grid)
  have inb: "sphere_in_bounds sph ((?T + 1) * (?S + 1)) k" if "k < ?len" for k
    using S1 assms(2) that by (rule sphere_walk_in_bounds)
  have walk: "concat (map (\<lambda>k. sphere_step sph vs (of_nat k)) [0..<unat ?len])
      = sphere_walk ?S vs (?S * ?T + ?S)" for vs
    unfolding sphere_walk_def no(1)
    by (rule arg_cong [where f = concat], rule map_cong [OF refl]) (simp add: no(2))
  have d: "length vs = (?T + 1) * (?S + 1) \<Longrightarrow> sphere_draw sph vs ?len s
      = Returns (s @ mesh_lines (sphere_walk ?S vs (?S * ?T + ?S)))" for vs s
    using sphere_draw_Returns [of ?len sph vs s] inb by (simp only: walk)
  show ?thesis
    by (simp add: gen_sphere_write_unfold fill d L obind_def length_sphere_walk)
qed

theorem gen_sphere_write_walk_witness:
  "(3::unsigned) \<le> 3 \<and> (3::unsigned) \<le> 3 \<and> (unat (3::unsigned) + 1) * (unat (3::unsigned) + 1) \<le> (2::nat) ^ 32
   \<and> gen_sphere_write [] \<lparr>Sphere.rad = 1, slices = 3, stacks = 3\<rparr>
      = Some (Returns (Text (''sphere'' @ [newline])
            # mesh_lines (sphere_walk 3 (sphere_grid \<lparr>Sphere.rad = 1, slices = 3, stacks = 3\<rparr>) 12)
            @ Text str_normals
            # mesh_lines (sphere_walk 3 (map normalize_P (sphere_grid \<lparr>Sphere.rad = 1, slices = 3, stacks = 3\<rparr>)) 12)))
   \<and> length (sphere_walk 3 (sphere_grid \<lparr>Sphere.rad = 1, slices = 3, stacks = 3\<rparr>) 12) = 24"
  using gen_sphere_write_walk [of "\<lparr>Sphere.rad = 1, slices = 3, stacks = 3\<rparr>" "[]"]
  by simp


section \<open>Bezier patches: indices out of range\<close>

lemma collect_Undefined: "Undefined \<in> set rs \<Longrightarrow> collect rs = Undefined"
proof (induction rs)
  case Nil
  then show ?case by simp
next
  case (Cons r rs)
  then show ?case by (cases r) (auto simp: obind_def)
qed

lemma four_tessellation_below_max: "4 * (t::unsigned) \<noteq> - 1"
proof
  assume "4 * t = - 1"
  then have "even (4 * t) = even (- 1 :: unsigned)" by simp
  then show False by simp
qed

lemma cp_at_out_of_range:
  assumes "k < length idxs" and "length cps \<le> unat (idxs ! k)"
  shows "cp_at cps idxs k = Undefined"
  using assms by (simp add: cp_at_def vec_at_def obind_def)

lemma bezier_single_out_of_range:
  assumes len: "length idxs = 16" and bad: "\<exists>idx \<in> set idxs. length cps \<le> unat idx"
  shows "gen_bezier_patch_single outf M cps idxs tessellation = Some Undefined"
proof -
  from bad obtain k where k: "k < 16" and oob: "length cps \<le> unat (idxs ! k)"
    using len by (auto simp: in_set_conv_nth)
  then have u: "cp_at cps idxs k = Undefined"
    using len by (simp add: cp_at_out_of_range)
  from k have "k = 0 \<or> k = 1 \<or> k = 2 \<or> k = 3 \<or> k = 4 \<or> k = 5 \<or> k = 6 \<or> k = 7
      \<or> k = 8 \<or> k = 9 \<or> k = 10 \<or> k = 11 \<or> k = 12 \<or> k = 13 \<or> k = 14 \<or> k = 15" by arith
  then have "Undefined \<in> set
      [collect [cp_at cps idxs 0, cp_at cps idxs 1, cp_at cps idxs 2, cp_at cps idxs 3],
       collect [cp_at cps idxs 4, cp_at cps idxs 5, cp_at cps idxs 6, cp_at cps idxs 7],
       collect [cp_at cps idxs 8, cp_at cps idxs 9, cp_at cps idxs 10, cp_at cps idxs 11],
       collect [cp_at cps idxs 12, cp_at cps idxs 13, cp_at cps idxs 14, cp_at cps idxs 15]]"
    using u by (elim disjE) (simp_all add: collect_Undefined del: collect.simps)
  then have "collect
      [collect [cp_at cps idxs 0, cp_at cps idxs 1, cp_at cps idxs 2, cp_at cps idxs 3],
       collect [cp_at cps idxs 4, cp_at cps idxs 5, cp_at cps idxs 6, cp_at cps idxs 7],
       collect [cp_at cps idxs 8, cp_at cps idxs 9, cp_at cps idxs 10, cp_at cps idxs 11],
       collect [cp_at cps idxs 12, cp_at cps idxs 13, cp_at cps idxs 14, cp_at cps idxs 15]]
      = Undefined"
    by (rule collect_Undefined)
  then show ?thesis by (simp add: gen_bezier_patch_single_def)
qed

text \<open>The two loops over the cells of a patch always end: \<open>4 * tessellation\<close> is even.\<close>

lemma bezier_cells_return:
  "\<exists>ts. map_option Returns (for_le 1 (4 * tessellation) (\<lambda>i outf.
        for_le 1 (4 * tessellation) (\<lambda>j outf.
          Some (gen_rectangle_write_nodivs_intern outf (R i j))) outf) outf)
     = Some (Returns (outf @ mesh_lines ts))"
proof -
  let ?n = "4 * tessellation"
  have inner: "for_le 1 ?n (\<lambda>j outf. Some (gen_rectangle_write_nodivs_intern outf (R i j))) s
      = Some (s @ concat (map (\<lambda>j. mesh_lines (split_quad (R i (of_nat j)))) [unat (1::unsigned)..<Suc (unat ?n)]))" for i s
    by (rule for_le_append [OF four_tessellation_below_max]) (simp add: rectangle_write_nodivs)
  have "for_le 1 ?n (\<lambda>i outf. for_le 1 ?n (\<lambda>j outf.
          Some (gen_rectangle_write_nodivs_intern outf (R i j))) outf) outf
      = Some (outf @ concat (map (\<lambda>i. concat (map (\<lambda>j. mesh_lines (split_quad (R (of_nat i) (of_nat j))))
          [unat (1::unsigned)..<Suc (unat ?n)])) [unat (1::unsigned)..<Suc (unat ?n)]))"
    by (rule for_le_append [OF four_tessellation_below_max]) (simp only: inner)
  also have "\<dots> = Some (outf @ mesh_lines (concat (map (\<lambda>i. concat (map (\<lambda>j. split_quad (R (of_nat i) (of_nat j)))
          [unat (1::unsigned)..<Suc (unat ?n)])) [unat (1::unsigned)..<Suc (unat ?n)])))"
    by (simp add: mesh_lines_concat comp_def del: upt_Suc)
  finally have "map_option Returns (for_le 1 ?n (\<lambda>i outf. for_le 1 ?n (\<lambda>j outf.
          Some (gen_rectangle_write_nodivs_intern outf (R i j))) outf) outf)
      = Some (Returns (outf @ mesh_lines (concat (map (\<lambda>i. concat (map (\<lambda>j. split_quad (R (of_nat i) (of_nat j)))
          [unat (1::unsigned)..<Suc (unat ?n)])) [unat (1::unsigned)..<Suc (unat ?n)]))))"
    by (simp only: option.map)
  then show ?thesis by (rule exI)
qed

lemma bezier_single_cases:
  "gen_bezier_patch_single outf M cps idxs tessellation = Some Undefined
   \<or> (\<exists>ts. gen_bezier_patch_single outf M cps idxs tessellation = Some (Returns (outf @ mesh_lines ts)))"
proof (cases "collect
      [collect [cp_at cps idxs 0, cp_at cps idxs 1, cp_at cps idxs 2, cp_at cps idxs 3],
       collect [cp_at cps idxs 4, cp_at cps idxs 5, cp_at cps idxs 6, cp_at cps idxs 7],
       collect [cp_at cps idxs 8, cp_at cps idxs 9, cp_at cps idxs 10, cp_at cps idxs 11],
       collect [cp_at cps idxs 12, cp_at cps idxs 13, cp_at cps idxs 14, cp_at cps idxs 15]]")
  case Undefined
  then show ?thesis by (simp add: gen_bezier_patch_single_def)
next
  case (Returns P)
  show ?thesis
    unfolding gen_bezier_patch_single_def Returns outcome.case Let_def
    by (rule disjI2) (rule bezier_cells_return)
qed

lemma bezier_patches_cases:
  "bezier_patches outf M cps patches tessellation = Some Undefined
   \<or> (\<exists>ts. bezier_patches outf M cps patches tessellation = Some (Returns (outf @ mesh_lines ts)))"
proof (induction patches arbitrary: outf)
  case Nil
  have "bezier_patches outf M cps [] tessellation = Some (Returns (outf @ mesh_lines []))"
    by (simp add: mesh_lines_Nil)
  then show ?case by blast
next
  case (Cons p patches)
  from bezier_single_cases [of outf M cps p tessellation] show ?case
  proof
    assume "gen_bezier_patch_single outf M cps p tessellation = Some Undefined"
    then show ?thesis by simp
  next
    assume "\<exists>ts. gen_bezier_patch_single outf M cps p tessellation = Some (Returns (outf @ mesh_lines ts))"
    then obtain ts where ts: "gen_bezier_patch_single outf M cps p tessellation
        = Some (Returns (outf @ mesh_lines ts))" by blast
    from Cons.IH [of "outf @ mesh_lines ts"] show ?thesis
    proof
      assume "bezier_patches (outf @ mesh_lines ts) M cps patches tessellation = Some Undefined"
      with ts show ?thesis by simp
    next
      assume "\<exists>us. bezier_patches (outf @ mesh_lines ts) M cps patches tessellation
          = Some (Returns ((outf @ mesh_lines ts) @ mesh_lines us))"
      then obtain us where "bezier_patches (outf @ mesh_lines ts) M cps patches tessellation
          = Some (Returns ((outf @ mesh_lines ts) @ mesh_lines us))" by blast
      with ts have "bezier_patches outf M cps (p # patches) tessellation
          = Some (Returns (outf @ mesh_lines (ts @ us)))"
        by (simp add: mesh_lines_append)
      then show ?thesis by blast
    qed
  qed
qed

lemma bezier_patches_out_of_range:
  assumes "\<forall>p \<in> set patches. length p = 16"
    and "\<exists>p \<in> set patches. \<exists>idx \<in> set p. length cps \<le> unat idx"
  shows "bezier_patches outf M cps patches tessellation = Some Undefined"
  using assms
proof (induction patches arbitrary: outf)
  case Nil
  then show ?case by simp
next
  case (Cons p patches)
  show ?case
  proof (cases "\<exists>idx \<in> set p. length cps \<le> unat idx")
    case True
    then have "gen_bezier_patch_single outf M cps p tessellation = Some Undefined"
      using Cons.prems(1) by (intro bezier_single_out_of_range) simp_all
    then show ?thesis by simp
  next
    case False
    with Cons.prems have rest: "\<forall>p \<in> set patches. length p = 16"
      "\<exists>p \<in> set patches. \<exists>idx \<in> set p. length cps \<le> unat idx" by auto
    from bezier_single_cases [of outf M cps p tessellation] show ?thesis
    proof
      assume "gen_bezier_patch_single outf M cps p tessellation = Some Undefined"
      then show ?thesis by simp
    next
      assume "\<exists>ts. gen_bezier_patch_single outf M cps p tessellation = Some (Returns (outf @ mesh_lines ts))"
      then obtain ts where ts: "gen_bezier_patch_single outf M cps p tessellation
          = Some (Returns (outf @ mesh_lines ts))" by blast
      have "bezier_patches (outf @ mesh_lines ts) M cps patches tessellation = Some Undefined"
        using rest by (rule Cons.IH)
      with ts show ?thesis by simp
    qed
  qed
qed

text \<open>
  C2, as the code has it. For every Bezier input whose patches hold sixteen indices
  each and whose patch list contains an index greater than or equal to the number of
  control points, \<^verbatim>\<open>gen_bezier_patch_write\<close> reports nothing: after the header line
  (and the triangles of the patches before) the evaluation reads \<^verbatim>\<open>cps\<close> out of
  range, which is undefined behaviour.
\<close>

theorem gen_bezier_patch_write_out_of_range:
  assumes "\<forall>p \<in> set patches. length p = 16"
    and "\<exists>p \<in> set patches. \<exists>idx \<in> set p. length cps \<le> unat idx"
  shows "gen_bezier_patch_write outf (cps, patches) tessellation = Some Undefined"
  using assms
  by (simp add: gen_bezier_patch_write_def gen_bezier_patch_write_intern_def
      bezier_patches_out_of_range)

theorem gen_bezier_patch_write_out_of_range_witness:
  "length (replicate 16 (0::unsigned)) = 16 \<and> length (replicate 16 (1::unsigned)) = 16
   \<and> (1::unsigned) \<in> set (replicate 16 1) \<and> length [Point 0 0 0] \<le> unat (1::unsigned)
   \<and> gen_bezier_patch_write [] ([Point 0 0 0], [replicate 16 0, replicate 16 1]) 1 = Some Undefined"
  using gen_bezier_patch_write_out_of_range
    [of "[replicate 16 0, replicate 16 1]" "[Point 0 0 0]" "[]" 1]
  by simp

text \<open>
  A patch that names control point 0 of an empty list of control points: the run is
  not an error report, it is an out-of-range read.
\<close>

theorem gen_bezier_patch_write_no_error:
  "gen_bezier_patch_write [] ([], [replicate 16 0]) 1 = Some Undefined"
proof -
  have "bezier_patches [Text (''bezier'' @ [newline])] bezier_M [] [replicate 16 0] 1
      = Some Undefined"
    by (rule bezier_patches_out_of_range) simp_all
  then show ?thesis
    by (simp add: gen_bezier_patch_write_def gen_bezier_patch_write_intern_def)
qed


section \<open>What the generators write\<close>

lemma cone_intern_mesh: "\<exists>ts. gen_cone_write_intern outf c = outf @ mesh_lines ts"
proof -
  define side where "side i = concat (map (\<lambda>j. split_quad (cone_side c i j)) [0..<unat (Cone.stacks c - 1)])" for i
  have "gen_cone_write_intern outf c
      = outf @ concat (map (\<lambda>i. mesh_lines ([cone_tip c i, cone_base c i] @ side i)) [0..<unat (Cone.slices c)])"
    unfolding gen_cone_write_intern_def Let_def
  proof (rule for_lt_append_unat [where g = "\<lambda>i. mesh_lines ([cone_tip c i, cone_base c i] @ side i)"], goal_cases)
    case (1 i s)
    have inner: "for_lt 0 (Cone.stacks c - 1) (\<lambda>j outf. gen_rectangle_write_nodivs_intern outf (R j)) t
        = t @ concat (map (\<lambda>j. mesh_lines (split_quad (cone_side c (unat i) j))) [0..<unat (Cone.stacks c - 1)])"
      if "\<And>j. R j = cone_side c (unat i) (unat j)" for R t
      by (rule for_lt_append_unat) (simp add: rectangle_write_nodivs that)
    show ?case
      apply (subst inner)
      subgoal for j
        by (simp add: cone_side_def cone_ring_def Let_def)
      apply (simp add: triangle_write side_def cone_tip_def cone_base_def cone_ring_def Let_def
          mesh_lines_append mesh_lines_concat mesh_lines_Cons mesh_lines_Nil comp_def)
      done
  qed
  then have "gen_cone_write_intern outf c
      = outf @ mesh_lines (concat (map (\<lambda>i. [cone_tip c i, cone_base c i] @ side i) [0..<unat (Cone.slices c)]))"
    by (simp add: mesh_lines_concat comp_def)
  then show ?thesis by (rule exI)
qed

lemma rectangle_intern_mesh:
  assumes "gen_rectangle_write_intern outf rect n = Some out"
  shows "\<exists>ts. out = outf @ mesh_lines ts"
proof -
  have "n \<noteq> - 1"
    using assms by (auto simp: gen_rectangle_write_intern_def Let_def for_le_max)
  then have "gen_rectangle_write_intern outf rect n
      = Some (outf @ mesh_lines (rectangle_triangles rect (unat n)))"
    by (rule rectangle_intern)
  with assms show ?thesis by auto
qed

lemma box_intern_mesh:
  assumes "gen_box_write_intern outf box n = Some out"
  shows "\<exists>ts. out = outf @ mesh_lines ts"
proof -
  from assms obtain o1 o2 o3 o4 o5 r1 r2 r3 r4 r5 r6 where
    "gen_rectangle_write_intern outf r1 n = Some o1"
    "gen_rectangle_write_intern o1 r2 n = Some o2"
    "gen_rectangle_write_intern o2 r3 n = Some o3"
    "gen_rectangle_write_intern o3 r4 n = Some o4"
    "gen_rectangle_write_intern o4 r5 n = Some o5"
    "gen_rectangle_write_intern o5 r6 n = Some out"
    unfolding gen_box_write_intern_def Let_def
    by (auto simp: bind_eq_Some_conv)
  then obtain t1 t2 t3 t4 t5 t6 where
    "o1 = outf @ mesh_lines t1" "o2 = o1 @ mesh_lines t2" "o3 = o2 @ mesh_lines t3"
    "o4 = o3 @ mesh_lines t4" "o5 = o4 @ mesh_lines t5" "out = o5 @ mesh_lines t6"
    by (meson rectangle_intern_mesh)
  then have "out = outf @ mesh_lines (t1 @ t2 @ t3 @ t4 @ t5 @ t6)"
    by (simp add: mesh_lines_append)
  then show ?thesis by (rule exI)
qed

lemma sphere_draw_mesh:
  assumes "sphere_draw sph vs len outf = Returns out"
  shows "\<exists>ts. out = outf @ mesh_lines ts"
proof (cases "\<forall>i. i < len \<longrightarrow> sphere_in_bounds sph (length vs) i")
  case True
  then have "sphere_draw sph vs len outf
      = Returns (outf @ mesh_lines (concat (map (\<lambda>k. sphere_step sph vs (of_nat k)) [0..<unat len])))"
    by (intro sphere_draw_Returns) simp
  with assms show ?thesis by auto
next
  case False
  then obtain i where "i < len" "\<not> sphere_in_bounds sph (length vs) i" by blast
  then have "sphere_draw sph vs len outf = Undefined" by (rule sphere_draw_Undefined)
  with assms show ?thesis by simp
qed

lemma mesh_lines_coords:
  "mesh_lines ts = map Coords (concat (map (\<lambda>t. [Triangle.P1 t, Triangle.P2 t, Triangle.P3 t]) ts))"
  by (induction ts) (simp_all add: mesh_lines_Nil mesh_lines_Cons tri_lines_def)

text \<open>A written file is a header line and coordinate lines, with one \<open>normals\<close> line among them for the sphere.\<close>

lemma produced_shape:
  assumes "produced out"
  shows "(\<exists>hdr ps. out = Text hdr # map Coords ps)
    \<or> (\<exists>hdr ps ns. out = Text hdr # map Coords ps @ Text str_normals # map Coords ns)"
proof -
  have plain: "(\<exists>hdr ps. out = Text hdr # map Coords ps)" if "out = [Text hdr] @ mesh_lines ts" for hdr ts
    using that by (auto simp: mesh_lines_coords)
  from assms consider
      (tri) t where "gen_triangle_write [] t = out"
    | (rect) r n where "gen_rectangle_write [] r n = Some out"
    | (box) b n where "gen_box_write [] b n = Some out"
    | (cone) c where "gen_cone_write [] c = out"
    | (cyl) c where "gen_cylinder_write [] c = out"
    | (sph) s where "gen_sphere_write [] s = Some (Returns out)"
    | (bez) inp t where "gen_bezier_patch_write [] inp t = Some (Returns out)"
    unfolding produced_def by blast
  then show ?thesis
  proof cases
    case tri
    then have "out = [Text (''triangle'' @ [newline])] @ mesh_lines [t]"
      by (simp add: gen_triangle_write_def triangle_write mesh_lines_Cons mesh_lines_Nil)
    then show ?thesis using plain by blast
  next
    case rect
    then obtain ts where "out = [Text (''rectangle'' @ [newline])] @ mesh_lines ts"
      unfolding gen_rectangle_write_def
      using rectangle_intern_mesh [of "[Text (''rectangle'' @ [newline])]" r n out] by auto
    then show ?thesis using plain by blast
  next
    case box
    then obtain ts where "out = [Text (''box'' @ [newline])] @ mesh_lines ts"
      unfolding gen_box_write_def
      using box_intern_mesh [of "[Text (''box'' @ [newline])]" b n out] by auto
    then show ?thesis using plain by blast
  next
    case cone
    then obtain ts where "out = [Text (''cone'' @ [newline])] @ mesh_lines ts"
      unfolding gen_cone_write_def using cone_intern_mesh [of "[Text (''cone'' @ [newline])]" c] by auto
    then show ?thesis using plain by blast
  next
    case cyl
    then have "out = [Text (''cylinder'' @ [newline])] @ mesh_lines (cylinder_triangles c)"
      by (simp add: gen_cylinder_write_def cylinder_intern)
    then show ?thesis using plain by blast
  next
    case bez
    obtain cps patches where inp: "inp = (cps, patches)" by (cases inp)
    from bezier_patches_cases [of "[Text (''bezier'' @ [newline])]" bezier_M cps patches t] bez
    obtain ts where "out = [Text (''bezier'' @ [newline])] @ mesh_lines ts"
      by (auto simp: inp gen_bezier_patch_write_def gen_bezier_patch_write_intern_def)
    then show ?thesis using plain by blast
  next
    case sph
    let ?len = "Sphere.slices s * Sphere.stacks s + Sphere.slices s"
    from sph obtain vs ns where fill: "sphere_fill s = Some (vs, ns)"
      by (cases "sphere_fill s") (auto simp: gen_sphere_write_unfold)
    with sph have both: "obind (sphere_draw s vs ?len [Text (''sphere'' @ [newline])])
        (\<lambda>outf. sphere_draw s ns ?len (outf @ [Text str_normals])) = Returns out"
      by (simp add: gen_sphere_write_unfold)
    then obtain o1 where
      d1: "sphere_draw s vs ?len [Text (''sphere'' @ [newline])] = Returns o1" and
      d2: "sphere_draw s ns ?len (o1 @ [Text str_normals]) = Returns out"
      by (cases "sphere_draw s vs ?len [Text (''sphere'' @ [newline])]") (simp_all add: obind_def)
    from sphere_draw_mesh [OF d1] obtain ts where "o1 = [Text (''sphere'' @ [newline])] @ mesh_lines ts"
      by blast
    moreover from sphere_draw_mesh [OF d2] obtain us where "out = (o1 @ [Text str_normals]) @ mesh_lines us"
      by blast
    ultimately have "out = Text (''sphere'' @ [newline])
        # map Coords (concat (map (\<lambda>t. [Triangle.P1 t, Triangle.P2 t, Triangle.P3 t]) ts))
        @ Text str_normals # map Coords (concat (map (\<lambda>t. [Triangle.P1 t, Triangle.P2 t, Triangle.P3 t]) us))"
      by (simp add: mesh_lines_coords)
    then show ?thesis by blast
  qed
qed

section \<open>Reading a written file back\<close>

lemma coords_of_Coords: "coords_of (map Coords ps) = ps"
  by (induction ps) (simp_all add: coords_of_def)

lemma positions_of_plain: "positions_of (Text hdr # map Coords ps) = ps"
proof -
  have "takeWhile (\<lambda>l. l \<noteq> Text str_normals) (map Coords ps) = map Coords ps"
    by (induction ps) simp_all
  then show ?thesis unfolding positions_of_def by (simp only: list.sel coords_of_Coords)
qed

lemma normals_of_plain: "normals_of (Text hdr # map Coords ps) = []"
proof -
  have "dropWhile (\<lambda>l. l \<noteq> Text str_normals) (map Coords ps) = []"
    by (induction ps) simp_all
  then have "normals_of (Text hdr # map Coords ps) = coords_of []"
    unfolding normals_of_def by (simp only: list.sel)
  then show ?thesis by (simp add: coords_of_def)
qed

lemma positions_of_sphere:
  "positions_of (Text hdr # map Coords ps @ Text str_normals # map Coords ns) = ps"
proof -
  have "takeWhile (\<lambda>l. l \<noteq> Text str_normals) (map Coords ps @ Text str_normals # map Coords ns)
      = map Coords ps"
    by (induction ps) simp_all
  then show ?thesis unfolding positions_of_def by (simp only: list.sel coords_of_Coords)
qed

lemma normals_of_sphere:
  "normals_of (Text hdr # map Coords ps @ Text str_normals # map Coords ns) = ns"
proof -
  have "dropWhile (\<lambda>l. l \<noteq> Text str_normals) (map Coords ps @ Text str_normals # map Coords ns)
      = Text str_normals # map Coords ns"
    by (induction ps) simp_all
  moreover have "coords_of (Text str_normals # map Coords ns) = ns"
    using coords_of_Coords [of ns] by (simp add: coords_of_def)
  ultimately show ?thesis unfolding normals_of_def by (simp only: list.sel)
qed

lemma read_vec_coords:
  assumes "\<And>p pt. sscanf (printf p) pt = (3, rd p)" and "\<And>p. printf p \<noteq> str_normals"
  shows "read_vec sscanf (map (as_text printf) (map Coords ps) @ rest) (Point 0 0 0) vec
    = read_vec sscanf rest (Point 0 0 0) (vec @ map rd ps)"
  by (induction ps arbitrary: vec) (simp_all add: assms gen_point_read_def EOF_def)

lemma read_norm_coords:
  assumes "\<And>p pt. sscanf (printf p) pt = (3, rd p)"
  shows "read_norm sscanf (map (as_text printf) (map Coords ns)) (Point 0 0 0) nrm = nrm @ map rd ns"
  by (induction ns arbitrary: nrm) (simp_all add: assms gen_point_read_def EOF_def)

text \<open>
  C9. Round trip. \<open>printf p\<close> is the line that \<^verbatim>\<open>fprintf\<close> writes for the point
  \<open>p\<close> and \<open>rd p\<close> the point that \<^verbatim>\<open>sscanf\<close> reads from that line (\<open>p\<close> at the
  written precision), with its three conversions; no such line is the \<open>normals\<close>
  line. Then for every file produced by a generator, each line of it delivered
  whole by \<^verbatim>\<open>fgets\<close>, \<^verbatim>\<open>gen_model_read\<close> returns the positions of the file in
  their order, read back, and the normals of the file in their order, read back
  (none when the file has no \<open>normals\<close> section).
\<close>

theorem gen_model_read_round_trip:
  assumes "\<And>p pt. sscanf (printf p) pt = (3, rd p)" and "\<And>p. printf p \<noteq> str_normals"
    and "produced out"
  shows "gen_model_read sscanf (map (as_text printf) out) [] []
    = (map rd (positions_of out), map rd (normals_of out))"
proof -
  from produced_shape [OF assms(3)] show ?thesis
  proof (elim disjE exE)
    fix hdr ps assume out: "out = Text hdr # map Coords ps"
    have "read_vec sscanf (map (as_text printf) (map Coords ps) @ []) (Point 0 0 0) []
        = read_vec sscanf [] (Point 0 0 0) ([] @ map rd ps)"
      using assms(1,2) by (rule read_vec_coords)
    then show ?thesis
      by (simp add: out gen_model_read_def positions_of_plain normals_of_plain comp_def)
  next
    fix hdr ps ns assume out: "out = Text hdr # map Coords ps @ Text str_normals # map Coords ns"
    have "read_vec sscanf (map (as_text printf) (map Coords ps) @ str_normals # map (as_text printf) (map Coords ns))
          (Point 0 0 0) []
        = read_vec sscanf (str_normals # map (as_text printf) (map Coords ns)) (Point 0 0 0) ([] @ map rd ps)"
      using assms(1,2) by (rule read_vec_coords)
    moreover have "read_norm sscanf (map (as_text printf) (map Coords ns)) (Point 0 0 0) []
        = [] @ map rd ns"
      using assms(1) by (rule read_norm_coords)
    ultimately show ?thesis
      by (simp add: out gen_model_read_def positions_of_sphere normals_of_sphere comp_def)
  qed
qed


theorem gen_model_read_round_trip_witness:
  "produced (Text (''sphere'' @ [newline])
      # mesh_lines (sphere_walk 3 (sphere_grid \<lparr>Sphere.rad = 1, slices = 3, stacks = 3\<rparr>) 12)
      @ Text str_normals
      # mesh_lines (sphere_walk 3 (map normalize_P (sphere_grid \<lparr>Sphere.rad = 1, slices = 3, stacks = 3\<rparr>)) 12))
   \<and> gen_model_read (\<lambda>line pt. (3, if line = ''0'' then Point 0 0 0 else Point 1 1 1))
       (map (as_text (\<lambda>p. if x p = 0 then ''0'' else ''1''))
         (Text (''sphere'' @ [newline])
          # mesh_lines (sphere_walk 3 (sphere_grid \<lparr>Sphere.rad = 1, slices = 3, stacks = 3\<rparr>) 12)
          @ Text str_normals
          # mesh_lines (sphere_walk 3 (map normalize_P (sphere_grid \<lparr>Sphere.rad = 1, slices = 3, stacks = 3\<rparr>)) 12)))
       [] []
     = (map (\<lambda>p. if x p = 0 then Point 0 0 0 else Point 1 1 1)
          (positions_of (Text (''sphere'' @ [newline])
            # mesh_lines (sphere_walk 3 (sphere_grid \<lparr>Sphere.rad = 1, slices = 3, stacks = 3\<rparr>) 12)
            @ Text str_normals
            # mesh_lines (sphere_walk 3 (map normalize_P (sphere_grid \<lparr>Sphere.rad = 1, slices = 3, stacks = 3\<rparr>)) 12))),
        map (\<lambda>p. if x p = 0 then Point 0 0 0 else Point 1 1 1)
          (normals_of (Text (''sphere'' @ [newline])
            # mesh_lines (sphere_walk 3 (sphere_grid \<lparr>Sphere.rad = 1, slices = 3, stacks = 3\<rparr>) 12)
            @ Text str_normals
            # mesh_lines (sphere_walk 3 (map normalize_P (sphere_grid \<lparr>Sphere.rad = 1, slices = 3, stacks = 3\<rparr>)) 12))))"
proof -
  let ?out = "Text (''sphere'' @ [newline])
      # mesh_lines (sphere_walk 3 (sphere_grid \<lparr>Sphere.rad = 1, slices = 3, stacks = 3\<rparr>) 12)
      @ Text str_normals
      # mesh_lines (sphere_walk 3 (map normalize_P (sphere_grid \<lparr>Sphere.rad = 1, slices = 3, stacks = 3\<rparr>)) 12)"
  have "gen_sphere_write [] \<lparr>Sphere.rad = 1, slices = 3, stacks = 3\<rparr> = Some (Returns ?out)"
    using gen_sphere_write_walk [of "\<lparr>Sphere.rad = 1, slices = 3, stacks = 3\<rparr>" "[]"] by simp
  then have made: "produced ?out"
    unfolding produced_def by blast
  have scan: "(\<lambda>line pt. (3, if line = ''0'' then Point 0 0 0 else Point 1 1 1))
        ((\<lambda>p. if x p = 0 then ''0'' else ''1'') p) pt
      = (3, (\<lambda>p. if x p = 0 then Point 0 0 0 else Point 1 1 1) p)" for p :: Point and pt :: Point
    by simp
  have other: "(\<lambda>p. if x p = 0 then ''0'' else ''1'') p \<noteq> str_normals" for p :: Point
    by (simp add: str_normals_def)
  from gen_model_read_round_trip
    [of "\<lambda>line pt. (3, if line = ''0'' then Point 0 0 0 else Point 1 1 1)"
        "\<lambda>p. if x p = 0 then ''0'' else ''1''"
        "\<lambda>p. if x p = 0 then Point 0 0 0 else Point 1 1 1" ?out, OF scan other made] made
  show ?thesis by (rule conjI [rotated])
qed


end
